theory Spec2Isabelle
  imports Main "HOL-Library.Sublist"
begin

unbundle bit_operations_syntax

section \<open>Strings\<close>

text \<open>
  \<^verbatim>\<open>source.includes(marker)\<close>: the marker occurs somewhere in the source as a contiguous
  run of characters. The search tries every start position from left to right.
\<close>

fun str_includes :: "string \<Rightarrow> string \<Rightarrow> bool" where
  "str_includes [] marker = (marker = [])"
| "str_includes (c # cs) marker = (prefix marker (c # cs) \<or> str_includes cs marker)"

text \<open>\<^verbatim>\<open>parts.join(' ')\<close>: the parts, one separator between two neighbours.\<close>

fun join :: "string \<Rightarrow> string list \<Rightarrow> string" where
  "join sep [] = []"
| "join sep [x] = x"
| "join sep (x # y # ys) = x @ sep @ join sep (y # ys)"

section \<open>The completion watcher (class ExecutionState)\<close>

text \<open>
  \<^verbatim>\<open>enum State { notStarted = 0, started = 1, completed = 2, errored = 4 }\<close>.
  A state is a number whose bits are the flags; the code combines flags with \<^verbatim>\<open>|\<close>
  and tests them with \<^verbatim>\<open>&\<close>.
\<close>

type_synonym State = int

definition notStarted :: State where "notStarted = 0"
definition started :: State where "started = 1"
definition completed :: State where "completed = 2"
definition errored :: State where "errored = 4"

text \<open>
  Modelled from the spec: \<^verbatim>\<open>Deferred<void>\<close> of \<^verbatim>\<open>createDeferred()\<close> (utils/async is not
  among the sources). The completion future settles at most once; once resolved or rejected
  it does not change. A rejection carries the message of its \<^verbatim>\<open>Error\<close>.
\<close>

datatype Deferred = Pending | Resolved | Rejected string

definition resolve :: "Deferred \<Rightarrow> Deferred" where
  "resolve d = (case d of Pending \<Rightarrow> Resolved | _ \<Rightarrow> d)"

definition reject :: "string \<Rightarrow> Deferred \<Rightarrow> Deferred" where
  "reject msg d = (case d of Pending \<Rightarrow> Rejected msg | _ \<Rightarrow> d)"

text \<open>
  The file system as the watcher reads it: a file is its path, mapped to its contents.
  \<^verbatim>\<open>fs.readFile(file)\<close> rejects when there is no such file.
\<close>

type_synonym file_name = string
type_synonym files = "file_name \<rightharpoonup> string"

definition readFile :: "files \<Rightarrow> file_name \<Rightarrow> string + string" where
  "readFile fs file = (case fs file of None \<Rightarrow> Inl ''ENOENT'' | Some source \<Rightarrow> Inr source)"

text \<open>
  The fields of an \<^verbatim>\<open>ExecutionState\<close>. \<open>completed_promise\<close> is the field \<^verbatim>\<open>_completed\<close>, which
  the getter \<^verbatim>\<open>completed\<close> reads (the flag has that name already). \<open>disposable\<close> is true
  while the field of that name holds the handle of the interval timer, false when it is
  \<^verbatim>\<open>undefined\<close>. \<open>traced\<close> collects the state changes handed to \<^verbatim>\<open>traceVerbose\<close>: the new
  state and the command text.
\<close>

record ExecutionState =
  state :: State
  completed_promise :: Deferred
  disposable :: bool
  lockFile :: file_name
  command :: "string list"
  traced :: "(State \<times> string) list"

text \<open>\<^verbatim>\<open>dispose()\<close>: clears the interval when it is still registered, and forgets the handle.\<close>

definition dispose :: "ExecutionState \<Rightarrow> ExecutionState" where
  "dispose w = (if disposable w then w\<lparr>disposable := False\<rparr> else w)"

text \<open>
  The constructor registers \<^verbatim>\<open>_completed.promise.finally(() => this.dispose())\<close>: the first
  settlement of the future disposes the watcher. Settling a settled future changes nothing,
  and the hook has run already.
\<close>

definition settle :: "(Deferred \<Rightarrow> Deferred) \<Rightarrow> ExecutionState \<Rightarrow> ExecutionState" where
  "settle f w =
     (if completed_promise w = Pending
      then dispose (w\<lparr>completed_promise := f (completed_promise w)\<rparr>)
      else w)"

text \<open>\<^verbatim>\<open>getLockFileState(file)\<close>: a failed read is the failure of the call.\<close>

definition getLockFileState :: "files \<Rightarrow> file_name \<Rightarrow> string + State" where
  "getLockFileState fs file =
     (case readFile fs file of
        Inl err \<Rightarrow> Inl err
      | Inr source \<Rightarrow>
          (let st = notStarted;
               st = (if str_includes source ''START'' then st OR started else st);
               st = (if str_includes source ''END'' then st OR completed else st);
               st = (if str_includes source ''FAIL'' then st OR (completed OR errored) else st)
           in Inr st))"

definition failureMessage :: "string list \<Rightarrow> string" where
  "failureMessage cmd =
     ''Command failed with errors, check the terminal for details. Command: '' @ join '' '' cmd"

text \<open>
  One run of the callback that \<^verbatim>\<open>registerStateUpdate\<close> hands to \<^verbatim>\<open>setInterval\<close>. When the
  read fails the callback's own promise rejects and nothing of the watcher changes.
\<close>

definition stateUpdate :: "files \<Rightarrow> ExecutionState \<Rightarrow> ExecutionState" where
  "stateUpdate fs w =
     (case getLockFileState fs (lockFile w) of
        Inl err \<Rightarrow> w
      | Inr st \<Rightarrow>
          (let w1 = (if st \<noteq> state w
                     then w\<lparr>traced := traced w @ [(st, join '' '' (command w))]\<rparr>
                     else w);
               w2 = w1\<lparr>state := st\<rparr>
           in if st AND errored \<noteq> 0 then settle (reject (failureMessage (command w))) w2
              else if st AND completed \<noteq> 0 then settle resolve w2
              else w2))"

text \<open>
  \<^verbatim>\<open>new ExecutionState(lockFile, fs, command)\<close>: the fields' initial values, then
  \<^verbatim>\<open>registerStateUpdate()\<close>, which registers the interval.
\<close>

definition newExecutionState :: "file_name \<Rightarrow> string list \<Rightarrow> ExecutionState" where
  "newExecutionState file cmd =
     \<lparr>state = notStarted, completed_promise = Pending, disposable = True,
      lockFile = file, command = cmd, traced = []\<rparr>"

section \<open>The synchronizing command runner (class SynchronousTerminalService)\<close>

subsection \<open>Collaborators\<close>

text \<open>
  What the service reaches through its imports and is not among the sources is a parameter:
  the constant \<^verbatim>\<open>shellExecFile\<close> (built from \<^verbatim>\<open>EXTENSION_ROOT_DIR\<close>), the string extension
  \<^verbatim>\<open>fileToCommandArgument()\<close>, and \<^verbatim>\<open>dispose()\<close> of a \<^verbatim>\<open>TemporaryFile\<close>, which answers with the
  file system it leaves or with the error it throws.
\<close>

record env =
  shellExecFile :: string
  fileToCommandArgument :: "string \<Rightarrow> string"
  disposeFile :: "file_name \<Rightarrow> files \<Rightarrow> string + files"

text \<open>Of a \<^verbatim>\<open>PythonInterpreter\<close> the code reads \<^verbatim>\<open>path\<close> only; of a token, whether it fired.\<close>

record PythonInterpreter =
  path :: string

record CancellationToken =
  isCancellationRequested :: bool

text \<open>The calls the service makes on its collaborators and on the timer, oldest first.\<close>

datatype effect =
    CreateTemporaryFile string
  | SetInterval file_name
  | ClearInterval file_name
  | GetActiveInterpreter
  | TerminalSendCommand string "string list"
  | TemporaryFileDispose file_name
  | TerminalDispose

text \<open>
  What the collaborators answer while a call is suspended at an \<^verbatim>\<open>await\<close>, and what
  happens around it: a promise the call awaits settles, something writes a file, the
  100 ms interval elapses and its callback starts to read the lock file, such a read
  completes, the token fires.
\<close>

datatype event =
    TemporaryFileCreated file_name
  | CreateTemporaryFileFailed string
  | ActiveInterpreter "PythonInterpreter option"
  | GetActiveInterpreterFailed string
  | TerminalSendCommandDone
  | TerminalSendCommandFailed string
  | FileWritten file_name string
  | IntervalElapsed
  | ReadFileDone
  | CancellationRequested

text \<open>Where a call of \<^verbatim>\<open>sendCommand\<close> stands: the \<^verbatim>\<open>await\<close> it is suspended at, or its outcome.\<close>

datatype phase =
    AwaitPlainSend
  | AwaitLockFile
  | AwaitInterpreter
  | AwaitSend
  | AwaitRace
  | Returned "string + unit"

text \<open>
  The service's fields (\<open>pythonInterpreter\<close>, \<open>disposables\<close>: each temporary file is its
  path), the file system and the log of effects; then the frame of the call: its
  arguments, whether its token has fired, its locals \<^verbatim>\<open>lockFile\<close> and \<^verbatim>\<open>state\<close>
  (\<open>callLockFile\<close>, \<open>callState\<close>; absent until they are assigned), and the number of
  interval callbacks suspended at \<^verbatim>\<open>await this.getLockFileState(...)\<close>.
\<close>

record runner =
  pythonInterpreter :: "PythonInterpreter option"
  disposables :: "file_name list"
  fsys :: files
  effects :: "effect list"

record call = runner +
  phase :: phase
  callCommand :: string
  callArgs :: "string list"
  cancelled :: bool
  callLockFile :: "file_name option"
  callState :: "ExecutionState option"
  reading :: nat

subsection \<open>sendCommand\<close>

text \<open>
  The call up to its first \<^verbatim>\<open>await\<close>. Without a token it is the terminal's own
  \<^verbatim>\<open>sendCommand(command, args)\<close>, whose promise it returns; with one it asks for the
  temporary file (\<^verbatim>\<open>createLockFile\<close>).
\<close>

definition sendCommand ::
  "string \<Rightarrow> string list \<Rightarrow> CancellationToken option \<Rightarrow> runner \<Rightarrow> call" where
  "sendCommand cmd args cancel r =
     (case cancel of
        None \<Rightarrow>
          \<lparr>pythonInterpreter = pythonInterpreter r, disposables = disposables r,
           fsys = fsys r, effects = effects r @ [TerminalSendCommand cmd args],
           phase = AwaitPlainSend, callCommand = cmd, callArgs = args, cancelled = False,
           callLockFile = None, callState = None, reading = 0\<rparr>
      | Some token \<Rightarrow>
          \<lparr>pythonInterpreter = pythonInterpreter r, disposables = disposables r,
           fsys = fsys r, effects = effects r @ [CreateTemporaryFile ''.log''],
           phase = AwaitLockFile, callCommand = cmd, callArgs = args,
           cancelled = isCancellationRequested token,
           callLockFile = None, callState = None, reading = 0\<rparr>)"

text \<open>
  The rewritten invocation, \<^verbatim>\<open>terminalService.sendCommand(pythonExec?.path || 'python', [...])\<close>:
  an absent interpreter and an empty path both give \<^verbatim>\<open>'python'\<close>.
\<close>

definition pythonPath :: "PythonInterpreter option \<Rightarrow> string" where
  "pythonPath pythonExec =
     (case pythonExec of
        None \<Rightarrow> ''python''
      | Some i \<Rightarrow> if path i = [] then ''python'' else path i)"

definition rewrittenArgs :: "env \<Rightarrow> string \<Rightarrow> string list \<Rightarrow> file_name \<Rightarrow> string list" where
  "rewrittenArgs e cmd args file =
     [fileToCommandArgument e (shellExecFile e), fileToCommandArgument e cmd]
     @ args
     @ [fileToCommandArgument e file]"

definition terminalSend :: "env \<Rightarrow> PythonInterpreter option \<Rightarrow> file_name \<Rightarrow> call \<Rightarrow> call" where
  "terminalSend e pythonExec file c =
     c\<lparr>effects := effects c @
          [TerminalSendCommand (pythonPath pythonExec)
             (rewrittenArgs e (callCommand c) (callArgs c) file)],
       phase := AwaitSend\<rparr>"

text \<open>
  The \<^verbatim>\<open>finally\<close> block: \<^verbatim>\<open>state.dispose()\<close>, then \<^verbatim>\<open>lockFile.dispose()\<close>. An error thrown by
  the latter replaces the outcome the \<^verbatim>\<open>try\<close> block had. The block is entered only after
  both locals are assigned.
\<close>

definition finallyBlock :: "env \<Rightarrow> string + unit \<Rightarrow> call \<Rightarrow> call" where
  "finallyBlock e outcome c =
     (case (callState c, callLockFile c) of
        (Some w, Some file) \<Rightarrow>
          (let c1 = c\<lparr>callState := Some (dispose w),
                      effects := effects c @ (if disposable w then [ClearInterval file] else [])
                                 @ [TemporaryFileDispose file]\<rparr>
           in case disposeFile e file (fsys c1) of
                Inl err \<Rightarrow> c1\<lparr>phase := Returned (Inl err)\<rparr>
              | Inr fs \<Rightarrow> c1\<lparr>fsys := fs, phase := Returned outcome\<rparr>)
      | _ \<Rightarrow> c)"

text \<open>
  \<^verbatim>\<open>promise.catch(noop)\<close>: \<^verbatim>\<open>noop\<close> (utils/misc, not among the sources) is the function
  that does nothing, so a rejection becomes a fulfilment and everything else is kept.
\<close>

definition catch_noop :: "Deferred \<Rightarrow> Deferred" where
  "catch_noop d = (case d of Rejected msg \<Rightarrow> Resolved | _ \<Rightarrow> d)"

text \<open>
  Modelled from the spec: \<^verbatim>\<open>Cancellation.race(work, token)\<close> (common/cancellation is not
  among the sources). The work's promise races the token; whichever happens first wins, and
  when the token fires first the wait returns without error. \<open>None\<close>: still waiting.
\<close>

definition race :: "Deferred \<Rightarrow> bool \<Rightarrow> (string + unit) option" where
  "race work fired =
     (case work of
        Resolved \<Rightarrow> Some (Inr ())
      | Rejected msg \<Rightarrow> Some (Inl msg)
      | Pending \<Rightarrow> if fired then Some (Inr ()) else None)"

text \<open>
  \<^verbatim>\<open>await Cancellation.race(() => state.completed.catch(noop), cancel)\<close> and what follows
  it: the call stays suspended, or leaves through the \<^verbatim>\<open>finally\<close> block.
\<close>

definition awaitRace :: "env \<Rightarrow> call \<Rightarrow> call" where
  "awaitRace e c =
     (case callState c of
        None \<Rightarrow> c
      | Some w \<Rightarrow>
          (case race (catch_noop (completed_promise w)) (cancelled c) of
             None \<Rightarrow> c\<lparr>phase := AwaitRace\<rparr>
           | Some (Inl err) \<Rightarrow> finallyBlock e (Inl err) c
           | Some (Inr u) \<Rightarrow> finallyBlock e (Inr ()) c))"

subsection \<open>The call, event by event\<close>

text \<open>
  \<^verbatim>\<open>createLockFile\<close> resolved: the file exists (empty) and is pushed onto \<open>disposables\<close>; the
  watcher is constructed over it, labelled \<^verbatim>\<open>[command, ...args]\<close>; then the \<^verbatim>\<open>try\<close> block
  begins. With \<open>pythonInterpreter\<close> set, \<^verbatim>\<open>||\<close> does not ask for the active interpreter and
  the terminal call follows at once.
\<close>

definition onTemporaryFileCreated :: "env \<Rightarrow> file_name \<Rightarrow> call \<Rightarrow> call" where
  "onTemporaryFileCreated e file c =
     (if phase c \<noteq> AwaitLockFile then c
      else
        (let c1 = c\<lparr>fsys := (fsys c)(file \<mapsto> []),
                    disposables := disposables c @ [file],
                    callLockFile := Some file,
                    callState := Some (newExecutionState file (callCommand c # callArgs c)),
                    effects := effects c @ [SetInterval file]\<rparr>
         in case pythonInterpreter c1 of
              Some i \<Rightarrow> terminalSend e (Some i) file c1
            | None \<Rightarrow> c1\<lparr>effects := effects c1 @ [GetActiveInterpreter],
                          phase := AwaitInterpreter\<rparr>))"

definition onCreateTemporaryFileFailed :: "string \<Rightarrow> call \<Rightarrow> call" where
  "onCreateTemporaryFileFailed err c =
     (if phase c \<noteq> AwaitLockFile then c else c\<lparr>phase := Returned (Inl err)\<rparr>)"

definition onActiveInterpreter :: "env \<Rightarrow> PythonInterpreter option \<Rightarrow> call \<Rightarrow> call" where
  "onActiveInterpreter e pythonExec c =
     (if phase c \<noteq> AwaitInterpreter then c
      else case callLockFile c of
             None \<Rightarrow> c
           | Some file \<Rightarrow> terminalSend e pythonExec file c)"

definition onGetActiveInterpreterFailed :: "env \<Rightarrow> string \<Rightarrow> call \<Rightarrow> call" where
  "onGetActiveInterpreterFailed e err c =
     (if phase c \<noteq> AwaitInterpreter then c else finallyBlock e (Inl err) c)"

definition onTerminalSendCommandDone :: "env \<Rightarrow> call \<Rightarrow> call" where
  "onTerminalSendCommandDone e c =
     (if phase c = AwaitPlainSend then c\<lparr>phase := Returned (Inr ())\<rparr>
      else if phase c = AwaitSend then awaitRace e c
      else c)"

definition onTerminalSendCommandFailed :: "env \<Rightarrow> string \<Rightarrow> call \<Rightarrow> call" where
  "onTerminalSendCommandFailed e err c =
     (if phase c = AwaitPlainSend then c\<lparr>phase := Returned (Inl err)\<rparr>
      else if phase c = AwaitSend then finallyBlock e (Inl err) c
      else c)"

definition onFileWritten :: "file_name \<Rightarrow> string \<Rightarrow> call \<Rightarrow> call" where
  "onFileWritten file contents c = c\<lparr>fsys := (fsys c)(file \<mapsto> contents)\<rparr>"

text \<open>
  The interval elapses: if the watcher exists and its timer is still registered, the
  callback starts and suspends at its read of the lock file.
\<close>

definition onIntervalElapsed :: "call \<Rightarrow> call" where
  "onIntervalElapsed c =
     (case callState c of
        None \<Rightarrow> c
      | Some w \<Rightarrow> if disposable w then c\<lparr>reading := reading c + 1\<rparr> else c)"

text \<open>
  A suspended callback's read completes and the callback runs to its end, whether or not
  the timer has been cleared meanwhile. If the future's first settlement cleared the timer,
  that is one more effect. If the call is suspended in the race, the race sees the
  future's new state.
\<close>

definition onReadFileDone :: "env \<Rightarrow> call \<Rightarrow> call" where
  "onReadFileDone e c =
     (case callState c of
        None \<Rightarrow> c
      | Some w \<Rightarrow>
          if reading c = 0 then c
          else
            (let w' = stateUpdate (fsys c) w;
                 c1 = c\<lparr>reading := reading c - 1,
                         callState := Some w',
                         effects := effects c @
                           (if disposable w \<and> \<not> disposable w'
                            then [ClearInterval (lockFile w)] else [])\<rparr>
             in if phase c = AwaitRace then awaitRace e c1 else c1))"

definition onCancellationRequested :: "env \<Rightarrow> call \<Rightarrow> call" where
  "onCancellationRequested e c =
     (let c1 = c\<lparr>cancelled := True\<rparr>
      in if phase c = AwaitRace then awaitRace e c1 else c1)"

fun step :: "env \<Rightarrow> event \<Rightarrow> call \<Rightarrow> call" where
  "step e (TemporaryFileCreated file) c = onTemporaryFileCreated e file c"
| "step e (CreateTemporaryFileFailed err) c = onCreateTemporaryFileFailed err c"
| "step e (ActiveInterpreter pythonExec) c = onActiveInterpreter e pythonExec c"
| "step e (GetActiveInterpreterFailed err) c = onGetActiveInterpreterFailed e err c"
| "step e TerminalSendCommandDone c = onTerminalSendCommandDone e c"
| "step e (TerminalSendCommandFailed err) c = onTerminalSendCommandFailed e err c"
| "step e (FileWritten file contents) c = onFileWritten file contents c"
| "step e IntervalElapsed c = onIntervalElapsed c"
| "step e ReadFileDone c = onReadFileDone e c"
| "step e CancellationRequested c = onCancellationRequested e c"

text \<open>A call and everything that happens after it, in order.\<close>

definition run :: "env \<Rightarrow> event list \<Rightarrow> call \<Rightarrow> call" where
  "run e evs c = fold (step e) evs c"

subsection \<open>dispose\<close>

text \<open>
  The \<^verbatim>\<open>while\<close> loop of \<^verbatim>\<open>dispose()\<close>: \<^verbatim>\<open>shift()\<close> takes the first entry, \<^verbatim>\<open>dispose()\<close> is
  called on it, and what it throws is swallowed (\<^verbatim>\<open>catch { noop(); }\<close>). Every entry is a
  temporary file, an object, so the \<^verbatim>\<open>else break\<close> is never taken.
\<close>

function drain :: "env \<Rightarrow> 'a runner_scheme \<Rightarrow> 'a runner_scheme" where
  "drain e r =
     (case disposables r of
        [] \<Rightarrow> r
      | d # ds \<Rightarrow>
          (let r1 = r\<lparr>disposables := ds, effects := effects r @ [TemporaryFileDispose d]\<rparr>
           in drain e (case disposeFile e d (fsys r1) of
                         Inl err \<Rightarrow> r1
                       | Inr fs \<Rightarrow> r1\<lparr>fsys := fs\<rparr>)))"
  by pat_completeness auto
termination
  by (relation "measure (\<lambda>(e, r). length (disposables r))") (auto split: sum.splits)

text \<open>\<^verbatim>\<open>dispose()\<close> of the service: the terminal first, then the loop.\<close>

definition disposeService :: "env \<Rightarrow> 'a runner_scheme \<Rightarrow> 'a runner_scheme" where
  "disposeService e r = drain e (r\<lparr>effects := effects r @ [TerminalDispose]\<rparr>)"

section \<open>Sample collaborators and inputs\<close>

text \<open>
  Concrete collaborators on which the model is evaluated. \<open>quoteBlanks\<close> is a quoting
  function in the manner of a command-line argument quoter: a text with a blank in it is
  put between double quotes, any other text is left as it is. \<open>removeFile\<close> deletes the
  file and never fails, so disposing twice is harmless; \<open>removeExistingFile\<close> throws when
  the file is not there.
\<close>

definition quoteBlanks :: "string \<Rightarrow> string" where
  "quoteBlanks s = (if CHR '' '' \<in> set s then [CHR 0x22] @ s @ [CHR 0x22] else s)"

definition removeFile :: "file_name \<Rightarrow> files \<Rightarrow> string + files" where
  "removeFile file fs = Inr (fs(file := None))"

definition removeExistingFile :: "file_name \<Rightarrow> files \<Rightarrow> string + files" where
  "removeExistingFile file fs =
     (if fs file = None then Inl ''ENOENT'' else Inr (fs(file := None)))"

definition sampleEnv :: env where
  "sampleEnv = \<lparr>shellExecFile = ''/ext/pythonFiles/shell_exec.py'',
                fileToCommandArgument = quoteBlanks, disposeFile = removeFile\<rparr>"

definition strictEnv :: env where
  "strictEnv = \<lparr>shellExecFile = ''/ext/pythonFiles/shell_exec.py'',
                fileToCommandArgument = quoteBlanks, disposeFile = removeExistingFile\<rparr>"

definition freshRunner :: runner where
  "freshRunner = \<lparr>pythonInterpreter = None, disposables = [], fsys = Map.empty, effects = []\<rparr>"

definition liveToken :: CancellationToken where
  "liveToken = \<lparr>isCancellationRequested = False\<rparr>"

text \<open>
  A call of \<^verbatim>\<open>sendCommand('build', [], token)\<close> up to the moment a poll is about to read
  \<^verbatim>\<open>FAIL\<close>: the lock file is created, no interpreter is found, the terminal takes the text,
  the helper writes \<^verbatim>\<open>START\<close> and a poll reads it, the helper writes \<^verbatim>\<open>FAIL\<close> and the next poll
  starts. In \<open>buildFails\<close> that poll's read completes.
\<close>

definition buildFailing :: "event list" where
  "buildFailing =
     [TemporaryFileCreated ''/tmp/lock.log'', ActiveInterpreter None, TerminalSendCommandDone,
      FileWritten ''/tmp/lock.log'' ''START'', IntervalElapsed, ReadFileDone,
      FileWritten ''/tmp/lock.log'' ''STARTFAIL'', IntervalElapsed]"

definition buildFails :: "event list" where
  "buildFails = buildFailing @ [ReadFileDone]"

text \<open>
  The same call at other moments: the resolver has not answered yet; the terminal has not
  answered yet; the call waits in the race; the helper has written \<^verbatim>\<open>START\<close> and \<^verbatim>\<open>END\<close> and a
  poll is about to read them; a poll has read \<^verbatim>\<open>FAIL\<close> while the terminal has not answered
  yet.
\<close>

definition awaitingInterpreter :: "event list" where
  "awaitingInterpreter = [TemporaryFileCreated ''/tmp/lock.log'']"

definition awaitingTerminal :: "event list" where
  "awaitingTerminal = [TemporaryFileCreated ''/tmp/lock.log'', ActiveInterpreter None]"

definition racing :: "event list" where
  "racing =
     [TemporaryFileCreated ''/tmp/lock.log'', ActiveInterpreter None, TerminalSendCommandDone]"

definition buildEnding :: "event list" where
  "buildEnding =
     [TemporaryFileCreated ''/tmp/lock.log'', ActiveInterpreter None, TerminalSendCommandDone,
      FileWritten ''/tmp/lock.log'' ''STARTEND'', IntervalElapsed]"

definition failedEarly :: "event list" where
  "failedEarly =
     [TemporaryFileCreated ''/tmp/lock.log'', ActiveInterpreter None,
      FileWritten ''/tmp/lock.log'' ''FAIL'', IntervalElapsed, ReadFileDone]"

text \<open>
  A service that still holds an earlier temporary file whose file is gone, and a call on
  it that is cancelled, after which the helper, still running, writes the lock file anew.
\<close>

definition staleRunner :: runner where
  "staleRunner = \<lparr>pythonInterpreter = None, disposables = [''/tmp/old.log''],
                  fsys = Map.empty, effects = []\<rparr>"

definition cancelledThenWritten :: "event list" where
  "cancelledThenWritten =
     [TemporaryFileCreated ''/tmp/lock.log'', ActiveInterpreter None, TerminalSendCommandDone,
      CancellationRequested, FileWritten ''/tmp/lock.log'' ''STARTEND'']"

section \<open>Invariants of a call\<close>

definition returned :: "call \<Rightarrow> bool" where
  "returned c = (case phase c of Returned x \<Rightarrow> True | _ \<Rightarrow> False)"

text \<open>
  What holds of a call with a token after any events \<open>seen\<close>, when the log was empty at its
  start: before the lock file exists nothing but the request for it has happened; from
  then on the file is on \<open>disposables\<close>, the log begins with the request and the start of
  the polling, every terminal call carries the rewritten invocation, and the file has been
  disposed by the call exactly when the call has returned, with the watcher disposed too.
\<close>

definition call_inv ::
  "runner \<Rightarrow> string \<Rightarrow> string list \<Rightarrow> env \<Rightarrow> event list \<Rightarrow> call \<Rightarrow> bool" where
  "call_inv r cmd args e seen c \<longleftrightarrow>
     phase c \<noteq> AwaitPlainSend \<and> callCommand c = cmd \<and> callArgs c = args \<and>
     pythonInterpreter c = pythonInterpreter r \<and>
     (case callLockFile c of
        None \<Rightarrow>
          callState c = None \<and> effects c = [CreateTemporaryFile ''.log''] \<and>
          disposables c = disposables r \<and>
          (phase c = AwaitLockFile \<or> (\<exists>err. phase c = Returned (Inl err)))
      | Some file \<Rightarrow>
          phase c \<noteq> AwaitLockFile \<and> disposables c = disposables r @ [file] \<and>
          (phase c = AwaitInterpreter \<longrightarrow>
             pythonInterpreter r = None \<and>
             (\<forall>x ys. TerminalSendCommand x ys \<notin> set (effects c))) \<and>
          prefix [CreateTemporaryFile ''.log'', SetInterval file] (effects c) \<and>
          (\<forall>x ys. TerminalSendCommand x ys \<in> set (effects c) \<longrightarrow>
             ys = fileToCommandArgument e (shellExecFile e) # fileToCommandArgument e cmd
                  # args @ [fileToCommandArgument e file] \<and>
             (case pythonInterpreter r of
                Some i \<Rightarrow> x = pythonPath (Some i)
              | None \<Rightarrow> \<exists>pythonExec. ActiveInterpreter pythonExec \<in> set seen \<and>
                                     x = pythonPath pythonExec)) \<and>
          count_list (effects c) (TemporaryFileDispose file) = (if returned c then 1 else 0) \<and>
          (\<exists>w. callState c = Some w \<and> lockFile w = file \<and> command w = cmd # args \<and>
               (returned c \<longrightarrow> \<not> disposable w) \<and>
               (\<not> returned c \<and> completed_promise w = Pending \<longrightarrow> disposable w) \<and>
               (phase c = AwaitRace \<longrightarrow> completed_promise w = Pending \<and> \<not> cancelled c) \<and>
               (\<forall>msg. completed_promise w = Rejected msg \<longrightarrow>
                  msg = failureMessage (cmd # args))))"

text \<open>What holds of a call without a token after any events.\<close>

definition plain_inv :: "runner \<Rightarrow> string \<Rightarrow> string list \<Rightarrow> call \<Rightarrow> bool" where
  "plain_inv r cmd args c \<longleftrightarrow>
     effects c = effects r @ [TerminalSendCommand cmd args] \<and> callLockFile c = None \<and>
     callState c = None \<and> disposables c = disposables r \<and> reading c = 0 \<and>
     (phase c = AwaitPlainSend \<or> returned c)"

section \<open>Facts about the model\<close>

lemmas flag_defs = notStarted_def started_def completed_def errored_def

lemmas handler_defs = onTemporaryFileCreated_def
  onCreateTemporaryFileFailed_def onActiveInterpreter_def onGetActiveInterpreterFailed_def
  onTerminalSendCommandDone_def onTerminalSendCommandFailed_def onFileWritten_def
  onIntervalElapsed_def onReadFileDone_def onCancellationRequested_def

lemmas model_defs = run_def sendCommand_def handler_defs
  terminalSend_def rewrittenArgs_def pythonPath_def finallyBlock_def awaitRace_def race_def
  catch_noop_def newExecutionState_def stateUpdate_def getLockFileState_def readFile_def
  settle_def dispose_def resolve_def reject_def failureMessage_def flag_defs Let_def

lemmas sample_defs = sampleEnv_def strictEnv_def freshRunner_def liveToken_def quoteBlanks_def
  removeFile_def removeExistingFile_def buildFailing_def buildFails_def
  awaitingInterpreter_def awaitingTerminal_def racing_def buildEnding_def failedEarly_def
  staleRunner_def cancelledThenWritten_def

subsection \<open>Substrings\<close>

text \<open>\<open>str_includes\<close> is the substring relation.\<close>

lemma str_includes_iff: "str_includes s m \<longleftrightarrow> (\<exists>ps ss. s = ps @ m @ ss)"
proof (induction s)
  case Nil
  then show ?case by auto
next
  case (Cons c cs)
  show ?case
  proof
    assume "str_includes (c # cs) m"
    then consider "prefix m (c # cs)" | "str_includes cs m" by auto
    then show "\<exists>ps ss. c # cs = ps @ m @ ss"
    proof cases
      case 1
      then obtain ss where "c # cs = m @ ss" by (auto simp: prefix_def)
      then have "c # cs = [] @ m @ ss" by simp
      then show ?thesis by blast
    next
      case 2
      with Cons.IH obtain ps ss where "cs = ps @ m @ ss" by blast
      then have "c # cs = (c # ps) @ m @ ss" by simp
      then show ?thesis by blast
    qed
  next
    assume "\<exists>ps ss. c # cs = ps @ m @ ss"
    then obtain ps ss where eq: "c # cs = ps @ m @ ss" by blast
    show "str_includes (c # cs) m"
    proof (cases ps)
      case Nil
      with eq have "prefix m (c # cs)" by (simp add: prefix_def)
      then show ?thesis by simp
    next
      case (Cons p ps')
      with eq have "cs = ps' @ m @ ss" by simp
      with Cons.IH have "str_includes cs m" by blast
      then show ?thesis by simp
    qed
  qed
qed


subsection \<open>The watcher\<close>

lemma getLockFileState_read:
  "fs file = Some source \<Longrightarrow>
   getLockFileState fs file =
     Inr ((if str_includes source ''START'' then 1 else 0) OR
          (if str_includes source ''END'' \<or> str_includes source ''FAIL'' then 2 else 0) OR
          (if str_includes source ''FAIL'' then 4 else 0))"
  by (simp add: getLockFileState_def readFile_def Let_def flag_defs)

lemma failureMessage_includes: "str_includes (failureMessage cmd) (join '' '' cmd)"
  unfolding str_includes_iff failureMessage_def
  by (metis append_Nil2)

lemma stateUpdate_lockFile [simp]: "lockFile (stateUpdate fs w) = lockFile w"
  by (simp add: stateUpdate_def Let_def settle_def dispose_def split: sum.splits)

lemma stateUpdate_command [simp]: "command (stateUpdate fs w) = command w"
  by (simp add: stateUpdate_def Let_def settle_def dispose_def split: sum.splits)

lemma stateUpdate_disposed: "\<not> disposable w \<Longrightarrow> \<not> disposable (stateUpdate fs w)"
  by (simp add: stateUpdate_def Let_def settle_def dispose_def split: sum.splits)

lemma stateUpdate_rejected:
  "completed_promise (stateUpdate fs w) = Rejected msg \<Longrightarrow>
   completed_promise w = Rejected msg \<or> msg = failureMessage (command w)"
  by (auto simp: stateUpdate_def Let_def settle_def dispose_def reject_def resolve_def
      split: sum.splits if_splits Deferred.splits)

lemma stateUpdate_pending:
  "completed_promise (stateUpdate fs w) = Pending \<Longrightarrow>
   completed_promise w = Pending \<and> disposable (stateUpdate fs w) = disposable w"
  by (auto simp: stateUpdate_def Let_def settle_def dispose_def reject_def resolve_def
      split: sum.splits if_splits Deferred.splits)

lemma dispose_fields [simp]:
  "lockFile (dispose w) = lockFile w" "command (dispose w) = command w"
  "\<not> disposable (dispose w)" "completed_promise (dispose w) = completed_promise w"
  by (simp_all add: dispose_def)

lemma stateUpdate_on_FAIL:
  assumes "fs (lockFile w) = Some source" and "str_includes source ''FAIL''"
  shows "completed_promise (stateUpdate fs w) =
           reject (failureMessage (command w)) (completed_promise w)"
    and "completed_promise w = Pending \<Longrightarrow> \<not> disposable (stateUpdate fs w)"
  using assms
  by (simp_all add: stateUpdate_def getLockFileState_read Let_def flag_defs settle_def
      dispose_def reject_def split: Deferred.splits)

lemma stateUpdate_no_marker:
  assumes "fs (lockFile w) = Some source"
    and "\<not> str_includes source ''END''" and "\<not> str_includes source ''FAIL''"
  shows "completed_promise (stateUpdate fs w) = completed_promise w
         \<and> disposable (stateUpdate fs w) = disposable w"
  using assms
  by (simp add: stateUpdate_def getLockFileState_read Let_def flag_defs)

subsection \<open>The call\<close>

lemma returned_step:
  assumes "phase c = Returned x"
  shows "phase (step e ev c) = Returned x \<and> callLockFile (step e ev c) = callLockFile c"
  using assms by (cases ev) (auto simp: handler_defs Let_def split: option.splits)

lemma returned_fold:
  "phase c = Returned x \<Longrightarrow>
   phase (fold (step e) evs c) = Returned x \<and> callLockFile (fold (step e) evs c) = callLockFile c"
proof (induction evs arbitrary: c)
  case Nil
  then show ?case by simp
next
  case (Cons ev evs)
  from returned_step [OF Cons.prems, of e ev] Cons.IH [of "step e ev c"]
  show ?case by simp
qed

lemma inv_start:
  "effects r = [] \<Longrightarrow> call_inv r cmd args e [] (sendCommand cmd args (Some token) r)"
  by (simp add: call_inv_def sendCommand_def)

lemma inv_finallyBlock:
  assumes "call_inv r cmd args e seen c" and "callLockFile c = Some file" and "\<not> returned c"
  shows "call_inv r cmd args e seen (finallyBlock e outcome c)"
  using assms
  by (auto simp: call_inv_def finallyBlock_def returned_def Let_def split: sum.splits)

lemma inv_awaitRace:
  assumes "call_inv r cmd args e seen (c\<lparr>phase := AwaitSend\<rparr>)"
  shows "call_inv r cmd args e seen (awaitRace e c)"
proof -
  from assms obtain lf w where lf: "callLockFile c = Some lf" and w: "callState c = Some w"
    by (auto simp: call_inv_def split: option.splits)
  show ?thesis
  proof (cases "completed_promise w = Pending \<and> \<not> cancelled c")
    case True
    then have "awaitRace e c = c\<lparr>phase := AwaitRace\<rparr>"
      using w by (simp add: awaitRace_def race_def catch_noop_def)
    then show ?thesis
      using assms True w lf by (auto simp: call_inv_def returned_def)
  next
    case False
    then have "awaitRace e c = finallyBlock e (Inr ()) c"
      using w by (auto simp: awaitRace_def race_def catch_noop_def split: Deferred.splits)
    moreover have "finallyBlock e (Inr ()) c = finallyBlock e (Inr ()) (c\<lparr>phase := AwaitSend\<rparr>)"
      using w lf by (simp add: finallyBlock_def Let_def split: sum.splits)
    moreover have "call_inv r cmd args e seen (finallyBlock e (Inr ()) (c\<lparr>phase := AwaitSend\<rparr>))"
      using assms lf by (intro inv_finallyBlock [of r cmd args e seen _ lf]) (simp_all add: returned_def)
    ultimately show ?thesis by simp
  qed
qed

lemma inv_mono:
  "call_inv r cmd args e seen c \<Longrightarrow> call_inv r cmd args e (seen @ [ev]) c"
  unfolding call_inv_def
  by (cases "callLockFile c"; cases "pythonInterpreter r") (simp_all, blast)

lemma inv_onActiveInterpreter:
  assumes "call_inv r cmd args e seen c"
  shows "call_inv r cmd args e (seen @ [ActiveInterpreter pythonExec])
           (onActiveInterpreter e pythonExec c)"
proof (cases "phase c = AwaitInterpreter")
  case False
  then show ?thesis using inv_mono [OF assms] by (simp add: onActiveInterpreter_def)
next
  case True
  with assms obtain lf where lf: "callLockFile c = Some lf"
    by (auto simp: call_inv_def split: option.splits)
  show ?thesis using assms lf True
    apply (simp add: onActiveInterpreter_def terminalSend_def rewrittenArgs_def)
    apply (auto simp: call_inv_def returned_def split: option.splits)
    done
qed

lemma inv_step0:
  assumes "call_inv r cmd args e seen c" and "\<And>pythonExec. ev \<noteq> ActiveInterpreter pythonExec"
  shows "call_inv r cmd args e seen (step e ev c)"
proof (cases ev)
  case (TemporaryFileCreated lf)
  show ?thesis
  proof (cases "phase c = AwaitLockFile")
    case False
    then show ?thesis using assms TemporaryFileCreated by (simp add: onTemporaryFileCreated_def)
  next
    case True
    with assms have none: "callLockFile c = None"
      by (auto simp: call_inv_def split: option.splits)
    let ?c1 = "c\<lparr>fsys := (fsys c)(lf \<mapsto> []),
                    disposables := disposables c @ [lf],
                    callLockFile := Some lf,
                    callState := Some (newExecutionState lf (callCommand c # callArgs c)),
                    effects := effects c @ [SetInterval lf]\<rparr>"
    show ?thesis
    proof (cases "pythonInterpreter c")
      case None
      then have eq: "step e ev c = ?c1\<lparr>effects := effects ?c1 @ [GetActiveInterpreter],
                          phase := AwaitInterpreter\<rparr>"
        using True TemporaryFileCreated by (simp add: onTemporaryFileCreated_def Let_def)
      have pr: "pythonInterpreter r = None"
        using assms None by (simp add: call_inv_def)
      show ?thesis
        unfolding eq using assms True none pr
        by (auto simp: call_inv_def returned_def newExecutionState_def)
    next
      case (Some i)
      then have eq: "step e ev c = terminalSend e (Some i) lf ?c1"
        using True TemporaryFileCreated by (simp add: onTemporaryFileCreated_def Let_def)
      have pr: "pythonInterpreter r = Some i"
        using assms Some by (simp add: call_inv_def)
      show ?thesis
        unfolding eq using assms True none pr
        by (auto simp: call_inv_def returned_def newExecutionState_def terminalSend_def
            rewrittenArgs_def)
    qed
  qed
next
  case (CreateTemporaryFileFailed err)
  then show ?thesis using assms
    by (auto simp: onCreateTemporaryFileFailed_def call_inv_def returned_def split: option.splits)
next
  case (ActiveInterpreter pythonExec)
  then show ?thesis using assms(2) by simp
next
  case (GetActiveInterpreterFailed err)
  show ?thesis
  proof (cases "phase c = AwaitInterpreter")
    case False
    then show ?thesis using assms GetActiveInterpreterFailed
      by (simp add: onGetActiveInterpreterFailed_def)
  next
    case True
    then have nr: "\<not> returned c" by (simp add: returned_def)
    from True assms obtain lf where "callLockFile c = Some lf"
      by (auto simp: call_inv_def split: option.splits)
    then show ?thesis using assms GetActiveInterpreterFailed True nr
      by (auto simp: onGetActiveInterpreterFailed_def intro: inv_finallyBlock)
  qed
next
  case TerminalSendCommandDone
  show ?thesis
  proof (cases "phase c = AwaitSend")
    case False
    then show ?thesis using assms TerminalSendCommandDone
      by (auto simp: onTerminalSendCommandDone_def call_inv_def)
  next
    case True
    then have nr: "\<not> returned c" by (simp add: returned_def)
    have "c\<lparr>phase := AwaitSend\<rparr> = c"
      using True by (cases c) simp
    with assms have "call_inv r cmd args e seen (c\<lparr>phase := AwaitSend\<rparr>)"
      by simp
    then have "call_inv r cmd args e seen (awaitRace e c)"
      by (rule inv_awaitRace)
    then show ?thesis using TerminalSendCommandDone True
      by (simp add: onTerminalSendCommandDone_def)
  qed
next
  case (TerminalSendCommandFailed err)
  show ?thesis
  proof (cases "phase c = AwaitSend")
    case False
    then show ?thesis using assms TerminalSendCommandFailed
      by (auto simp: onTerminalSendCommandFailed_def call_inv_def)
  next
    case True
    then have nr: "\<not> returned c" by (simp add: returned_def)
    from True assms obtain lf where "callLockFile c = Some lf"
      by (auto simp: call_inv_def split: option.splits)
    then show ?thesis using assms TerminalSendCommandFailed True nr
      by (auto simp: onTerminalSendCommandFailed_def intro: inv_finallyBlock)
  qed
next
  case (FileWritten lf contents)
  then show ?thesis using assms
    by (auto simp: onFileWritten_def call_inv_def returned_def split: option.splits)
next
  case IntervalElapsed
  then show ?thesis using assms
    by (auto simp: onIntervalElapsed_def call_inv_def returned_def split: option.splits)
next
  case ReadFileDone
  show ?thesis
  proof (cases "callState c")
    case None
    then show ?thesis using assms ReadFileDone by (simp add: onReadFileDone_def)
  next
    case (Some w)
    let ?w' = "stateUpdate (fsys c) w"
    let ?c1 = "c\<lparr>reading := reading c - 1, callState := Some ?w',
                  effects := effects c @
                    (if disposable w \<and> \<not> disposable ?w' then [ClearInterval (lockFile w)] else [])\<rparr>"
    from Some assms obtain lf where lf: "callLockFile c = Some lf"
      by (auto simp: call_inv_def split: option.splits)
    have eq: "step e ev c = (if reading c = 0 then c
                             else if phase c = AwaitRace then awaitRace e ?c1 else ?c1)"
      using ReadFileDone Some by (simp add: onReadFileDone_def Let_def)
    show ?thesis
    proof (cases "reading c = 0")
      case True
      then show ?thesis using eq assms by simp
    next
      case False
      show ?thesis
      proof (cases "phase c = AwaitRace")
        case True
        have "call_inv r cmd args e seen (?c1\<lparr>phase := AwaitSend\<rparr>)"
          using assms Some lf True stateUpdate_disposed [of w "fsys c"]
            stateUpdate_rejected [of "fsys c" w] stateUpdate_pending [of "fsys c" w]
          by (auto simp: call_inv_def returned_def)
        then have "call_inv r cmd args e seen (awaitRace e ?c1)"
          by (rule inv_awaitRace)
        then show ?thesis using eq False True by simp
      next
        case nrace: False
        have "call_inv r cmd args e seen ?c1"
          using assms Some lf nrace stateUpdate_disposed [of w "fsys c"]
            stateUpdate_rejected [of "fsys c" w] stateUpdate_pending [of "fsys c" w]
          by (auto simp: call_inv_def returned_def)
        then show ?thesis using eq False nrace by simp
      qed
    qed
  qed
next
  case CancellationRequested
  show ?thesis
  proof (cases "phase c = AwaitRace")
    case False
    have "call_inv r cmd args e seen (c\<lparr>cancelled := True\<rparr>)"
      using assms False by (auto simp: call_inv_def returned_def split: option.splits)
    then show ?thesis using False CancellationRequested by (simp add: onCancellationRequested_def)
  next
    case True
    have "call_inv r cmd args e seen (c\<lparr>cancelled := True, phase := AwaitSend\<rparr>)"
      using assms True by (auto simp: call_inv_def returned_def split: option.splits)
    then have "call_inv r cmd args e seen (awaitRace e (c\<lparr>cancelled := True\<rparr>))"
      by (intro inv_awaitRace) simp
    then show ?thesis using CancellationRequested True by (simp add: onCancellationRequested_def)
  qed
qed

lemma inv_step:
  assumes "call_inv r cmd args e seen c"
  shows "call_inv r cmd args e (seen @ [ev]) (step e ev c)"
proof (cases "\<exists>pythonExec. ev = ActiveInterpreter pythonExec")
  case True
  then show ?thesis using inv_onActiveInterpreter [OF assms] by auto
next
  case False
  then have "call_inv r cmd args e seen (step e ev c)"
    using assms by (intro inv_step0) auto
  then show ?thesis by (rule inv_mono)
qed

lemma inv_fold:
  "call_inv r cmd args e seen c \<Longrightarrow> call_inv r cmd args e (seen @ evs) (fold (step e) evs c)"
proof (induction evs arbitrary: seen c)
  case Nil
  then show ?case by simp
next
  case (Cons ev evs)
  from Cons.IH [OF inv_step [OF Cons.prems, of ev]] show ?case by simp
qed

lemma inv_run:
  assumes "effects r = []"
  shows "call_inv r cmd args e evs (run e evs (sendCommand cmd args (Some token) r))"
  using inv_fold [OF inv_start [OF assms], of cmd args e evs token] by (simp add: run_def)

lemma plain_step: "plain_inv r cmd args c \<Longrightarrow> plain_inv r cmd args (step e ev c)"
  by (cases ev) (auto simp: plain_inv_def handler_defs returned_def Let_def split: phase.splits)

lemma plain_fold: "plain_inv r cmd args c \<Longrightarrow> plain_inv r cmd args (fold (step e) evs c)"
  by (induction evs arbitrary: c) (simp_all add: plain_step)

lemma plain_start: "plain_inv r cmd args (sendCommand cmd args None r)"
  by (simp add: plain_inv_def sendCommand_def)

text \<open>What the \<^verbatim>\<open>finally\<close> block and the race leave, spelled out.\<close>

lemma finallyBlock_result:
  assumes "callState c = Some w" and "callLockFile c = Some lf"
  shows "phase (finallyBlock e outcome c)
           = Returned (case disposeFile e lf (fsys c) of Inl x \<Rightarrow> Inl x | Inr fs \<Rightarrow> outcome)"
    and "fsys (finallyBlock e outcome c)
           = (case disposeFile e lf (fsys c) of Inl x \<Rightarrow> fsys c | Inr fs \<Rightarrow> fs)"
    and "effects (finallyBlock e outcome c)
           = effects c @ (if disposable w then [ClearInterval lf] else [])
             @ [TemporaryFileDispose lf]"
    and "callState (finallyBlock e outcome c) = Some (dispose w)"
  using assms by (simp_all add: finallyBlock_def Let_def split: sum.splits)

lemma awaitRace_result:
  assumes "callState c = Some w"
  shows "awaitRace e c =
           (if completed_promise w = Pending \<and> \<not> cancelled c then c\<lparr>phase := AwaitRace\<rparr>
            else finallyBlock e (Inr ()) c)"
  using assms by (auto simp: awaitRace_def race_def catch_noop_def split: Deferred.splits)

lemma exit_step:
  assumes inv: "call_inv r cmd args e seen c" and lf: "callLockFile c = Some lf"
    and ex: "(phase c = AwaitInterpreter \<and> ev = GetActiveInterpreterFailed err \<and> outcome = Inl err)
       \<or> (phase c = AwaitSend \<and> ev = TerminalSendCommandFailed err \<and> outcome = Inl err)
       \<or> (phase c = AwaitSend \<and> ev = TerminalSendCommandDone \<and> outcome = Inr () \<and>
            (cancelled c \<or> (\<exists>w. callState c = Some w \<and> completed_promise w \<noteq> Pending)))
       \<or> (phase c = AwaitRace \<and> ev = CancellationRequested \<and> outcome = Inr ())
       \<or> (phase c = AwaitRace \<and> ev = ReadFileDone \<and> outcome = Inr () \<and> 0 < reading c \<and>
            (\<exists>source. fsys c lf = Some source \<and>
               (str_includes source ''END'' \<or> str_includes source ''FAIL'')))"
  shows "phase (step e ev c)
           = Returned (case disposeFile e lf (fsys c) of Inl x \<Rightarrow> Inl x | Inr fs \<Rightarrow> outcome)"
proof -
  from inv lf obtain w where w: "callState c = Some w" and lw: "lockFile w = lf"
    by (auto simp: call_inv_def)
  from ex consider
      (interp) "phase c = AwaitInterpreter" "ev = GetActiveInterpreterFailed err" "outcome = Inl err"
    | (sendf) "phase c = AwaitSend" "ev = TerminalSendCommandFailed err" "outcome = Inl err"
    | (sent) "phase c = AwaitSend" "ev = TerminalSendCommandDone" "outcome = Inr ()"
        "cancelled c \<or> completed_promise w \<noteq> Pending"
    | (cancel) "phase c = AwaitRace" "ev = CancellationRequested" "outcome = Inr ()"
    | (poll) source where "phase c = AwaitRace" "ev = ReadFileDone" "outcome = Inr ()" "0 < reading c"
        "fsys c lf = Some source" "str_includes source ''END'' \<or> str_includes source ''FAIL''"
    using w by auto
  then show ?thesis
  proof cases
    case interp
    then show ?thesis using w lf
      by (simp add: onGetActiveInterpreterFailed_def finallyBlock_result split: sum.splits)
  next
    case sendf
    then show ?thesis using w lf
      by (simp add: onTerminalSendCommandFailed_def finallyBlock_result split: sum.splits)
  next
    case sent
    then show ?thesis using w lf
      by (auto simp: onTerminalSendCommandDone_def awaitRace_result finallyBlock_result
          split: sum.splits)
  next
    case cancel
    then show ?thesis using w lf
      by (simp add: onCancellationRequested_def awaitRace_result finallyBlock_result
          split: sum.splits)
  next
    case poll
    let ?w' = "stateUpdate (fsys c) w"
    have "completed_promise w = Pending"
      using inv lf w poll(1) by (auto simp: call_inv_def)
    then have "completed_promise ?w' \<noteq> Pending"
      using poll(5,6) lw
      by (auto simp: stateUpdate_def getLockFileState_read Let_def flag_defs settle_def
          dispose_def reject_def resolve_def)
    then show ?thesis using w lf poll
      by (simp add: onReadFileDone_def Let_def awaitRace_result finallyBlock_result
          split: sum.splits)
  qed
qed

lemma lockFile_step:
  assumes "callLockFile c = Some lf" and "phase c \<noteq> AwaitLockFile"
  shows "callLockFile (step e ev c) = Some lf"
  using assms
  by (cases ev)
     (auto simp: handler_defs terminalSend_def awaitRace_def finallyBlock_def Let_def
        split: option.splits sum.splits)

lemma returning_step:
  assumes inv: "call_inv r cmd args e seen c" and nr: "\<not> returned c"
    and lf: "callLockFile c = Some lf" and w: "callState c = Some w"
    and ret: "phase (step e ev c) = Returned outcome"
  shows "fsys (step e ev c)
           = (case disposeFile e lf (fsys c) of Inl x \<Rightarrow> fsys c | Inr fs \<Rightarrow> fs)"
    and "effects (step e ev c)
           = effects c @ (if disposable w then [ClearInterval lf] else [])
             @ [TemporaryFileDispose lf]"
proof -
  have lw: "lockFile w = lf"
    using inv lf w by (auto simp: call_inv_def)
  have na: "phase c \<noteq> AwaitLockFile" "phase c \<noteq> AwaitPlainSend"
    using inv lf by (auto simp: call_inv_def)
  let ?w' = "stateUpdate (fsys c) w"
  have dw: "disposable ?w' \<Longrightarrow> disposable w"
    using stateUpdate_disposed [of w "fsys c"] by blast
  show "fsys (step e ev c)
           = (case disposeFile e lf (fsys c) of Inl x \<Rightarrow> fsys c | Inr fs \<Rightarrow> fs)"
    using nr lf w ret na lw
    by (cases ev)
       (auto simp: returned_def handler_defs terminalSend_def awaitRace_result
          finallyBlock_result Let_def split: option.splits if_splits sum.splits)
  show "effects (step e ev c)
           = effects c @ (if disposable w then [ClearInterval lf] else [])
             @ [TemporaryFileDispose lf]"
    using nr lf w ret na lw dw
    by (cases ev)
       (auto simp: returned_def handler_defs terminalSend_def awaitRace_result
          finallyBlock_result Let_def split: option.splits if_splits sum.splits)
qed

subsection \<open>The service's dispose\<close>

lemma drain_all:
  "effects (drain e r) = effects r @ map TemporaryFileDispose (disposables r)
   \<and> disposables (drain e r) = []
   \<and> fsys (drain e r)
       = foldl (\<lambda>fs d. case disposeFile e d fs of Inl err \<Rightarrow> fs | Inr fs' \<Rightarrow> fs')
           (fsys r) (disposables r)"
proof (induction e r rule: drain.induct)
  case (1 e r)
  show ?case
  proof (cases "disposables r")
    case Nil
    then show ?thesis by (subst drain.simps, simp)+
  next
    case (Cons d ds)
    then show ?thesis
      using "1.IH" [OF Cons refl]
      by (subst (1 2 3) drain.simps) (simp add: Let_def split: sum.splits)
  qed
qed

lemma count_dispose:
  "count_list (map TemporaryFileDispose ds) (TemporaryFileDispose lf) = count_list ds lf"
  by (induction ds) simp_all

section \<open>The claims\<close>

subsection \<open>The derived state\<close>

text \<open>
  C3. Whatever the lock file contains, reading it yields a state and no error. The state
  has the \<open>started\<close> bit exactly when the contents include \<^verbatim>\<open>START\<close>, the \<open>completed\<close> bit
  exactly when they include \<^verbatim>\<open>END\<close> or \<^verbatim>\<open>FAIL\<close>, and the \<open>errored\<close> bit exactly when they
  include \<^verbatim>\<open>FAIL\<close>.
\<close>

theorem getLockFileState_markers:
  assumes "fs file = Some source"
  shows "\<exists>st. getLockFileState fs file = Inr st \<and>
     (st AND started \<noteq> 0 \<longleftrightarrow> str_includes source ''START'') \<and>
     (st AND completed \<noteq> 0 \<longleftrightarrow> str_includes source ''END'' \<or> str_includes source ''FAIL'') \<and>
     (st AND errored \<noteq> 0 \<longleftrightarrow> str_includes source ''FAIL'')"
  using assms by (simp add: getLockFileState_read flag_defs)

theorem getLockFileState_markers_witness:
  "[''/tmp/lock.log'' \<mapsto> ''xxFAIL''] ''/tmp/lock.log'' = Some ''xxFAIL'' \<and>
   (\<exists>st. getLockFileState [''/tmp/lock.log'' \<mapsto> ''xxFAIL''] ''/tmp/lock.log'' = Inr st \<and>
      st AND started = 0 \<and> st AND completed \<noteq> 0 \<and> st AND errored \<noteq> 0)"
proof -
  have h: "[''/tmp/lock.log'' \<mapsto> ''xxFAIL''] ''/tmp/lock.log'' = Some ''xxFAIL''"
    by simp
  show ?thesis
    using h getLockFileState_markers
      [of "[''/tmp/lock.log'' \<mapsto> ''xxFAIL'']" "''/tmp/lock.log''" "''xxFAIL''", OF h]
    by simp
qed

subsection \<open>One poll\<close>

text \<open>
  C4. A poll that reads contents with \<^verbatim>\<open>FAIL\<close> in them, with or without \<^verbatim>\<open>START\<close> and
  \<^verbatim>\<open>END\<close>, rejects the completion future, and the message of the error includes the
  command text. On a future still pending the rejection takes effect and the watcher
  disposes itself; a future settled before stays as it was.
\<close>

theorem stateUpdate_FAIL_rejects:
  assumes "fs (lockFile w) = Some source" and "str_includes source ''FAIL''"
  shows "completed_promise (stateUpdate fs w) =
           reject (''Command failed with errors, check the terminal for details. Command: ''
                   @ join '' '' (command w)) (completed_promise w)
         \<and> str_includes (''Command failed with errors, check the terminal for details. Command: ''
                   @ join '' '' (command w)) (join '' '' (command w))
         \<and> (completed_promise w = Pending \<longrightarrow>
              completed_promise (stateUpdate fs w) =
                Rejected (''Command failed with errors, check the terminal for details. Command: ''
                   @ join '' '' (command w))
              \<and> \<not> disposable (stateUpdate fs w))"
  using stateUpdate_on_FAIL [of fs w source, OF assms] failureMessage_includes [of "command w"]
  by (simp add: failureMessage_def reject_def)

theorem stateUpdate_FAIL_rejects_witness:
  "str_includes ''START END FAIL'' ''FAIL'' \<and>
   completed_promise (stateUpdate [''/tmp/lock.log'' \<mapsto> ''START END FAIL'']
      (newExecutionState ''/tmp/lock.log'' [''pip'', ''install'', ''x'']))
   = Rejected ''Command failed with errors, check the terminal for details. Command: pip install x''"
proof -
  let ?w = "newExecutionState ''/tmp/lock.log'' [''pip'', ''install'', ''x'']"
  have h1: "[''/tmp/lock.log'' \<mapsto> ''START END FAIL''] (lockFile ?w) = Some ''START END FAIL''"
    by (simp add: newExecutionState_def)
  have h2: "str_includes ''START END FAIL'' ''FAIL''"
    by simp
  show ?thesis
    using h2 stateUpdate_FAIL_rejects
      [of "[''/tmp/lock.log'' \<mapsto> ''START END FAIL'']" ?w "''START END FAIL''", OF h1 h2]
    by (simp add: newExecutionState_def reject_def)
qed

text \<open>
  C5. A poll that reads contents with \<^verbatim>\<open>END\<close> and without \<^verbatim>\<open>FAIL\<close> in them resolves the
  completion future, whether or not \<^verbatim>\<open>START\<close> is there or was ever seen. On a future still
  pending the resolution takes effect and the watcher disposes itself.
\<close>

theorem stateUpdate_END_resolves:
  assumes "fs (lockFile w) = Some source"
    and "str_includes source ''END''" and "\<not> str_includes source ''FAIL''"
  shows "completed_promise (stateUpdate fs w) = resolve (completed_promise w)
         \<and> (completed_promise w = Pending \<longrightarrow>
              completed_promise (stateUpdate fs w) = Resolved \<and> \<not> disposable (stateUpdate fs w))"
  using assms
  by (simp add: stateUpdate_def getLockFileState_read Let_def flag_defs settle_def dispose_def
      resolve_def split: Deferred.splits)

theorem stateUpdate_END_resolves_witness:
  "str_includes ''END'' ''END'' \<and> \<not> str_includes ''END'' ''FAIL'' \<and> \<not> str_includes ''END'' ''START'' \<and>
   state (newExecutionState ''/tmp/lock.log'' [''build'']) = notStarted \<and>
   completed_promise (stateUpdate [''/tmp/lock.log'' \<mapsto> ''END'']
      (newExecutionState ''/tmp/lock.log'' [''build''])) = Resolved"
proof -
  let ?w = "newExecutionState ''/tmp/lock.log'' [''build'']"
  have h1: "[''/tmp/lock.log'' \<mapsto> ''END''] (lockFile ?w) = Some ''END''"
    by (simp add: newExecutionState_def)
  have h2: "str_includes ''END'' ''END''" and h3: "\<not> str_includes ''END'' ''FAIL''"
    by simp_all
  show ?thesis
    using h2 h3 stateUpdate_END_resolves
      [of "[''/tmp/lock.log'' \<mapsto> ''END'']" ?w "''END''", OF h1 h2 h3]
    by (simp add: newExecutionState_def flag_defs resolve_def)
qed

text \<open>
  C6. Polls that read contents with neither \<^verbatim>\<open>END\<close> nor \<^verbatim>\<open>FAIL\<close> in them, however many,
  neither resolve nor reject the completion future, and leave the interval timer as it
  was: a pending future stays pending and a registered timer stays registered, until
  something else disposes the watcher.
\<close>

theorem stateUpdate_no_marker_pending:
  assumes "\<forall>fs \<in> set fss. \<exists>source. fs (lockFile w) = Some source
             \<and> \<not> str_includes source ''END'' \<and> \<not> str_includes source ''FAIL''"
  shows "completed_promise (fold stateUpdate fss w) = completed_promise w
         \<and> disposable (fold stateUpdate fss w) = disposable w"
  using assms
proof (induction fss arbitrary: w)
  case Nil
  then show ?case by simp
next
  case (Cons fs fss)
  from Cons.prems obtain source where src: "fs (lockFile w) = Some source"
    "\<not> str_includes source ''END''" "\<not> str_includes source ''FAIL''" by auto
  have keep: "completed_promise (stateUpdate fs w) = completed_promise w
         \<and> disposable (stateUpdate fs w) = disposable w"
    using src by (rule stateUpdate_no_marker [of fs w source])
  have "\<forall>fs' \<in> set fss. \<exists>source. fs' (lockFile (stateUpdate fs w)) = Some source
             \<and> \<not> str_includes source ''END'' \<and> \<not> str_includes source ''FAIL''"
    using Cons.prems by (simp add: stateUpdate_lockFile)
  from Cons.IH [OF this] keep show ?case by simp
qed

theorem stateUpdate_no_marker_pending_witness:
  "completed_promise (fold stateUpdate
      [[''/tmp/lock.log'' \<mapsto> ''''], [''/tmp/lock.log'' \<mapsto> ''START''], [''/tmp/lock.log'' \<mapsto> ''START'']]
      (newExecutionState ''/tmp/lock.log'' [''sleep'', ''10''])) = Pending
   \<and> disposable (fold stateUpdate
      [[''/tmp/lock.log'' \<mapsto> ''''], [''/tmp/lock.log'' \<mapsto> ''START''], [''/tmp/lock.log'' \<mapsto> ''START'']]
      (newExecutionState ''/tmp/lock.log'' [''sleep'', ''10'']))"
proof -
  let ?w = "newExecutionState ''/tmp/lock.log'' [''sleep'', ''10'']"
  let ?fss = "[[''/tmp/lock.log'' \<mapsto> ''''], [''/tmp/lock.log'' \<mapsto> ''START''],
               [''/tmp/lock.log'' \<mapsto> ''START'']] :: files list"
  have h: "\<forall>fs \<in> set ?fss. \<exists>source. fs (lockFile ?w) = Some source
             \<and> \<not> str_includes source ''END'' \<and> \<not> str_includes source ''FAIL''"
    by (simp add: newExecutionState_def)
  have "completed_promise ?w = Pending" and "disposable ?w"
    by (simp_all add: newExecutionState_def)
  with stateUpdate_no_marker_pending [OF h] show ?thesis by simp
qed

subsection \<open>A call without a token\<close>

text \<open>
  C7. Without a cancellation token \<^verbatim>\<open>sendCommand(command, args)\<close> makes one call on its
  collaborators, the terminal's \<^verbatim>\<open>sendCommand\<close> with the command and the arguments as they
  were given, and nothing else whatever happens afterwards: no temporary file is asked
  for, no watcher exists, nothing is pushed onto \<open>disposables\<close>, no poll is started. The
  call returns as soon as the terminal has answered, with the terminal's answer.
\<close>

theorem sendCommand_no_token_forwards:
  "effects (run e evs (sendCommand cmd args None r)) = effects r @ [TerminalSendCommand cmd args]
   \<and> callLockFile (run e evs (sendCommand cmd args None r)) = None
   \<and> callState (run e evs (sendCommand cmd args None r)) = None
   \<and> disposables (run e evs (sendCommand cmd args None r)) = disposables r
   \<and> reading (run e evs (sendCommand cmd args None r)) = 0
   \<and> phase (run e (TerminalSendCommandDone # evs) (sendCommand cmd args None r)) = Returned (Inr ())
   \<and> phase (run e (TerminalSendCommandFailed err # evs) (sendCommand cmd args None r))
       = Returned (Inl err)"
proof -
  have "plain_inv r cmd args (run e evs (sendCommand cmd args None r))"
    unfolding run_def by (rule plain_fold [OF plain_start])
  moreover have "phase (step e TerminalSendCommandDone (sendCommand cmd args None r)) = Returned (Inr ())"
    by (simp add: onTerminalSendCommandDone_def sendCommand_def)
  moreover have "phase (step e (TerminalSendCommandFailed err) (sendCommand cmd args None r))
                   = Returned (Inl err)"
    by (simp add: onTerminalSendCommandFailed_def sendCommand_def)
  ultimately show ?thesis
    by (simp add: plain_inv_def run_def returned_fold)
qed

theorem sendCommand_no_token_forwards_witness:
  "effects (run sampleEnv [IntervalElapsed, CancellationRequested]
              (sendCommand ''echo'' [''hi''] None freshRunner))
     = [TerminalSendCommand ''echo'' [''hi'']]
   \<and> callLockFile (run sampleEnv [IntervalElapsed, CancellationRequested]
              (sendCommand ''echo'' [''hi''] None freshRunner)) = None
   \<and> phase (run sampleEnv [TerminalSendCommandDone, IntervalElapsed, CancellationRequested]
              (sendCommand ''echo'' [''hi''] None freshRunner)) = Returned (Inr ())"
  using sendCommand_no_token_forwards
    [of sampleEnv "[IntervalElapsed, CancellationRequested]" "''echo''" "[''hi'']" freshRunner]
  by (simp add: freshRunner_def)

subsection \<open>A call with a token\<close>

text \<open>
  C9. In a call with a token whose log starts empty:
  \<^item> as long as no lock file exists, the only thing that has happened is the request for
    it, and there is no watcher;
  \<^item> in the step in which the file is created, the file exists, the watcher over it is
    constructed with its timer registered and its future pending, and the log is the
    request, the \<^verbatim>\<open>setInterval\<close>, and only then the next action of the call: the terminal call
    when the service has an interpreter of its own, the question to the resolver otherwise;
  \<^item> while the resolver has not answered, the terminal has not been called; its answer
    appends the terminal call to the log;
  \<^item> from the creation of the file on, the watcher over it is there, and until its future
    settles or the call returns its timer stays registered and every elapsed interval
    starts a read of the lock file: the polling is under way whenever the terminal is called;
  \<^item> every call of the terminal's \<^verbatim>\<open>sendCommand\<close> stands in the log after the request for the
    temporary file and after the \<^verbatim>\<open>setInterval\<close> over that file;
  \<^item> when the creation of the file fails, the call returns that failure and the log holds
    the request alone, whatever happens later: the terminal is never called.
\<close>

theorem lock_file_before_send:
  assumes "effects r = []"
    and "c = run e evs (sendCommand cmd args (Some token) r)"
  shows "(callLockFile c = None \<longrightarrow>
            effects c = [CreateTemporaryFile ''.log''] \<and> callState c = None)
       \<and> (phase c = AwaitLockFile \<longrightarrow>
            fsys (step e (TemporaryFileCreated lf) c) lf = Some [] \<and>
            (\<exists>w. callState (step e (TemporaryFileCreated lf) c) = Some w \<and> lockFile w = lf \<and>
                 completed_promise w = Pending \<and> disposable w) \<and>
            effects (step e (TemporaryFileCreated lf) c) =
              [CreateTemporaryFile ''.log'', SetInterval lf,
               (case pythonInterpreter r of
                  None \<Rightarrow> GetActiveInterpreter
                | Some i \<Rightarrow>
                    TerminalSendCommand (pythonPath (Some i))
                      ([fileToCommandArgument e (shellExecFile e), fileToCommandArgument e cmd]
                       @ args @ [fileToCommandArgument e lf]))])
       \<and> (phase c = AwaitInterpreter \<longrightarrow>
            (\<forall>x ys. TerminalSendCommand x ys \<notin> set (effects c)) \<and>
            (\<exists>lk. callLockFile c = Some lk \<and>
               effects (step e (ActiveInterpreter pythonExec) c) =
                 effects c @
                 [TerminalSendCommand (pythonPath pythonExec)
                    ([fileToCommandArgument e (shellExecFile e), fileToCommandArgument e cmd]
                     @ args @ [fileToCommandArgument e lk])]))
       \<and> (\<forall>lk. callLockFile c = Some lk \<longrightarrow>
            (\<exists>w. callState c = Some w \<and> lockFile w = lk \<and>
               ((\<forall>x. phase c \<noteq> Returned x) \<and> completed_promise w = Pending \<longrightarrow>
                  disposable w \<and> reading (step e IntervalElapsed c) = reading c + 1)))
       \<and> (\<forall>x ys. TerminalSendCommand x ys \<in> set (effects c) \<longrightarrow>
            (\<exists>lk rest. callLockFile c = Some lk \<and>
               effects c = CreateTemporaryFile ''.log'' # SetInterval lk # rest \<and>
               TerminalSendCommand x ys \<in> set rest))
       \<and> phase (run e (CreateTemporaryFileFailed err # evs)
                  (sendCommand cmd args (Some token) r)) = Returned (Inl err)
       \<and> effects (run e (CreateTemporaryFileFailed err # evs)
                  (sendCommand cmd args (Some token) r)) = [CreateTemporaryFile ''.log'']"
proof -
  have inv: "call_inv r cmd args e evs c"
    using inv_run [OF assms(1)] assms(2) by simp
  have a: "callLockFile c = None \<longrightarrow>
            effects c = [CreateTemporaryFile ''.log''] \<and> callState c = None"
    using inv by (auto simp: call_inv_def)
  have created: "fsys (step e (TemporaryFileCreated lf) c) lf = Some [] \<and>
            (\<exists>w. callState (step e (TemporaryFileCreated lf) c) = Some w \<and> lockFile w = lf \<and>
                 completed_promise w = Pending \<and> disposable w) \<and>
            effects (step e (TemporaryFileCreated lf) c) =
              [CreateTemporaryFile ''.log'', SetInterval lf,
               (case pythonInterpreter r of
                  None \<Rightarrow> GetActiveInterpreter
                | Some i \<Rightarrow>
                    TerminalSendCommand (pythonPath (Some i))
                      ([fileToCommandArgument e (shellExecFile e), fileToCommandArgument e cmd]
                       @ args @ [fileToCommandArgument e lf]))]"
    if ph: "phase c = AwaitLockFile"
  proof -
    from inv ph have "callLockFile c = None" "effects c = [CreateTemporaryFile ''.log'']"
      "pythonInterpreter c = pythonInterpreter r" "callCommand c = cmd" "callArgs c = args"
      by (auto simp: call_inv_def split: option.splits)
    with ph show ?thesis
      by (simp add: onTemporaryFileCreated_def Let_def terminalSend_def rewrittenArgs_def
          newExecutionState_def split: option.splits)
  qed
  have answered: "(\<forall>x ys. TerminalSendCommand x ys \<notin> set (effects c)) \<and>
            (\<exists>lk. callLockFile c = Some lk \<and>
               effects (step e (ActiveInterpreter pythonExec) c) =
                 effects c @
                 [TerminalSendCommand (pythonPath pythonExec)
                    ([fileToCommandArgument e (shellExecFile e), fileToCommandArgument e cmd]
                     @ args @ [fileToCommandArgument e lk])])"
    if ph: "phase c = AwaitInterpreter"
  proof -
    from inv ph obtain lk where lk: "callLockFile c = Some lk"
      by (auto simp: call_inv_def split: option.splits)
    with inv ph have "\<forall>x ys. TerminalSendCommand x ys \<notin> set (effects c)"
      "callCommand c = cmd" "callArgs c = args"
      by (auto simp: call_inv_def)
    with ph lk show ?thesis
      by (simp add: onActiveInterpreter_def terminalSend_def rewrittenArgs_def)
  qed
  have polling: "\<exists>w. callState c = Some w \<and> lockFile w = lk \<and>
               ((\<forall>x. phase c \<noteq> Returned x) \<and> completed_promise w = Pending \<longrightarrow>
                  disposable w \<and> reading (step e IntervalElapsed c) = reading c + 1)"
    if lk: "callLockFile c = Some lk" for lk
  proof -
    from inv lk obtain w where w: "callState c = Some w" "lockFile w = lk"
      and reg: "\<not> returned c \<and> completed_promise w = Pending \<longrightarrow> disposable w"
      by (auto simp: call_inv_def)
    have "disposable w \<and> reading (step e IntervalElapsed c) = reading c + 1"
      if "\<forall>x. phase c \<noteq> Returned x" and "completed_promise w = Pending"
    proof -
      from that(1) have "\<not> returned c"
        by (auto simp: returned_def split: phase.splits)
      with reg that(2) have "disposable w" by simp
      then show ?thesis using w by (simp add: onIntervalElapsed_def)
    qed
    with w show ?thesis by blast
  qed
  have b: "\<exists>lk rest. callLockFile c = Some lk \<and>
               effects c = CreateTemporaryFile ''.log'' # SetInterval lk # rest \<and>
               TerminalSendCommand x ys \<in> set rest"
    if send: "TerminalSendCommand x ys \<in> set (effects c)" for x ys
  proof (cases "callLockFile c")
    case None
    with inv send show ?thesis by (simp add: call_inv_def)
  next
    case (Some lk)
    with inv obtain rest where
      rest: "effects c = [CreateTemporaryFile ''.log'', SetInterval lk] @ rest"
      by (auto simp: call_inv_def prefix_def)
    with send have "TerminalSendCommand x ys \<in> set rest" by auto
    with Some rest show ?thesis by simp
  qed
  let ?c0 = "sendCommand cmd args (Some token) r"
  let ?f = "run e (CreateTemporaryFileFailed err # evs) ?c0"
  have f0: "phase (step e (CreateTemporaryFileFailed err) ?c0) = Returned (Inl err)"
    "callLockFile (step e (CreateTemporaryFileFailed err) ?c0) = None"
    by (simp_all add: onCreateTemporaryFileFailed_def sendCommand_def)
  have f1: "phase ?f = Returned (Inl err)" "callLockFile ?f = None"
    using returned_fold [OF f0(1), of e evs] f0(2) by (simp_all add: run_def)
  have "call_inv r cmd args e (CreateTemporaryFileFailed err # evs) ?f"
    by (rule inv_run [OF assms(1)])
  with f1 have f2: "effects ?f = [CreateTemporaryFile ''.log'']"
    by (simp add: call_inv_def)
  from a created answered polling b f1(1) f2 show ?thesis by blast
qed

theorem lock_file_before_send_witness:
  "phase (run sampleEnv [] (sendCommand ''build'' [] (Some liveToken) freshRunner))
     = AwaitLockFile
   \<and> fsys (step sampleEnv (TemporaryFileCreated ''/tmp/lock.log'')
        (run sampleEnv [] (sendCommand ''build'' [] (Some liveToken) freshRunner)))
        ''/tmp/lock.log'' = Some []
   \<and> (\<exists>w. callState (step sampleEnv (TemporaryFileCreated ''/tmp/lock.log'')
              (run sampleEnv [] (sendCommand ''build'' [] (Some liveToken) freshRunner)))
            = Some w \<and>
          lockFile w = ''/tmp/lock.log'' \<and> completed_promise w = Pending \<and> disposable w)
   \<and> effects (step sampleEnv (TemporaryFileCreated ''/tmp/lock.log'')
        (run sampleEnv [] (sendCommand ''build'' [] (Some liveToken) freshRunner)))
     = [CreateTemporaryFile ''.log'', SetInterval ''/tmp/lock.log'', GetActiveInterpreter]
   \<and> phase (run sampleEnv awaitingInterpreter
        (sendCommand ''build'' [] (Some liveToken) freshRunner)) = AwaitInterpreter
   \<and> reading (step sampleEnv IntervalElapsed (run sampleEnv awaitingInterpreter
        (sendCommand ''build'' [] (Some liveToken) freshRunner))) = 1
   \<and> effects (step sampleEnv (ActiveInterpreter None) (run sampleEnv awaitingInterpreter
        (sendCommand ''build'' [] (Some liveToken) freshRunner)))
     = [CreateTemporaryFile ''.log'', SetInterval ''/tmp/lock.log'', GetActiveInterpreter,
        TerminalSendCommand ''python''
          [''/ext/pythonFiles/shell_exec.py'', ''build'', ''/tmp/lock.log'']]
   \<and> (\<exists>lk rest.
        callLockFile (run sampleEnv awaitingTerminal
              (sendCommand ''build'' [] (Some liveToken) freshRunner)) = Some lk \<and>
        effects (run sampleEnv awaitingTerminal
              (sendCommand ''build'' [] (Some liveToken) freshRunner))
          = CreateTemporaryFile ''.log'' # SetInterval lk # rest \<and>
        TerminalSendCommand ''python''
          [''/ext/pythonFiles/shell_exec.py'', ''build'', ''/tmp/lock.log''] \<in> set rest)
   \<and> phase (run sampleEnv
              [CreateTemporaryFileFailed ''EACCES'', TemporaryFileCreated ''/tmp/lock.log'',
               ActiveInterpreter None]
              (sendCommand ''build'' [] (Some liveToken) freshRunner)) = Returned (Inl ''EACCES'')
   \<and> effects (run sampleEnv
              [CreateTemporaryFileFailed ''EACCES'', TemporaryFileCreated ''/tmp/lock.log'',
               ActiveInterpreter None]
              (sendCommand ''build'' [] (Some liveToken) freshRunner))
     = [CreateTemporaryFile ''.log'']"
proof -
  let ?call = "sendCommand ''build'' [] (Some liveToken) freshRunner"
  let ?c0 = "run sampleEnv [] ?call"
  let ?c1 = "run sampleEnv awaitingInterpreter ?call"
  let ?c2 = "run sampleEnv awaitingTerminal ?call"
  have h: "effects freshRunner = []" and pi: "pythonInterpreter freshRunner = None"
    by (simp_all add: freshRunner_def)
  have p0: "phase ?c0 = AwaitLockFile"
    by (simp add: sample_defs model_defs)
  have p1: "phase ?c1 = AwaitInterpreter"
    and l1: "callLockFile ?c1 = Some ''/tmp/lock.log''"
    and e1: "effects ?c1
      = [CreateTemporaryFile ''.log'', SetInterval ''/tmp/lock.log'', GetActiveInterpreter]"
    and r1: "reading ?c1 = 0"
    and w1: "map_option completed_promise (callState ?c1) = Some Pending"
    by (simp_all add: sample_defs model_defs)
  have send: "TerminalSendCommand ''python''
          [''/ext/pythonFiles/shell_exec.py'', ''build'', ''/tmp/lock.log''] \<in> set (effects ?c2)"
    by (simp add: sample_defs model_defs)
  have q: "fileToCommandArgument sampleEnv (shellExecFile sampleEnv)
             = ''/ext/pythonFiles/shell_exec.py''"
    "fileToCommandArgument sampleEnv ''build'' = ''build''"
    "fileToCommandArgument sampleEnv ''/tmp/lock.log'' = ''/tmp/lock.log''"
    "pythonPath None = ''python''"
    by (simp_all add: sample_defs pythonPath_def)
  note t0 = lock_file_before_send
    [OF h refl, of sampleEnv "[]" "''build''" "[]" liveToken "''/tmp/lock.log''" None "''EACCES''"]
  note t1 = lock_file_before_send
    [OF h refl, of sampleEnv awaitingInterpreter "''build''" "[]" liveToken "''/tmp/lock.log''"
       None "''EACCES''"]
  note t2 = lock_file_before_send
    [OF h refl, of sampleEnv awaitingTerminal "''build''" "[]" liveToken "''/tmp/lock.log''"
       None "''EACCES''"]
  have created: "fsys (step sampleEnv (TemporaryFileCreated ''/tmp/lock.log'') ?c0)
        ''/tmp/lock.log'' = Some []
     \<and> (\<exists>w. callState (step sampleEnv (TemporaryFileCreated ''/tmp/lock.log'') ?c0) = Some w \<and>
          lockFile w = ''/tmp/lock.log'' \<and> completed_promise w = Pending \<and> disposable w)
     \<and> effects (step sampleEnv (TemporaryFileCreated ''/tmp/lock.log'') ?c0)
       = [CreateTemporaryFile ''.log'', SetInterval ''/tmp/lock.log'', GetActiveInterpreter]"
    using t0 p0 pi by simp
  have polls: "reading (step sampleEnv IntervalElapsed ?c1) = 1"
    using t1 p1 l1 r1 w1 by auto
  have answered: "effects (step sampleEnv (ActiveInterpreter None) ?c1)
     = [CreateTemporaryFile ''.log'', SetInterval ''/tmp/lock.log'', GetActiveInterpreter,
        TerminalSendCommand ''python''
          [''/ext/pythonFiles/shell_exec.py'', ''build'', ''/tmp/lock.log'']]"
    using t1 p1 l1 e1 q by auto
  have ordered: "\<exists>lk rest. callLockFile ?c2 = Some lk \<and>
        effects ?c2 = CreateTemporaryFile ''.log'' # SetInterval lk # rest \<and>
        TerminalSendCommand ''python''
          [''/ext/pythonFiles/shell_exec.py'', ''build'', ''/tmp/lock.log''] \<in> set rest"
    using t2 send by blast
  have failed: "phase (run sampleEnv
              [CreateTemporaryFileFailed ''EACCES'', TemporaryFileCreated ''/tmp/lock.log'',
               ActiveInterpreter None] ?call) = Returned (Inl ''EACCES'')
     \<and> effects (run sampleEnv
              [CreateTemporaryFileFailed ''EACCES'', TemporaryFileCreated ''/tmp/lock.log'',
               ActiveInterpreter None] ?call) = [CreateTemporaryFile ''.log'']"
    using t2 by (simp add: awaitingTerminal_def)
  from p0 created p1 polls answered ordered failed show ?thesis
    by (simp only: simp_thms)
qed

text \<open>
  C2, as the code has it. In a call with a token whose log starts empty, every call of
  the terminal's \<^verbatim>\<open>sendCommand\<close> carries, as its arguments, the quoted path of the helper
  script, the quoted command, the arguments of the caller exactly as they were given, and the
  quoted path of the lock file. Its command is the path of the service's own interpreter
  when it has one, else of the interpreter the resolver answered, and \<^verbatim>\<open>python\<close> when that
  is absent or has an empty path.
\<close>

theorem rewritten_invocation:
  assumes "effects r = []"
    and "c = run e evs (sendCommand cmd args (Some token) r)"
    and "TerminalSendCommand interpreter sent \<in> set (effects c)"
  shows "\<exists>lf. callLockFile c = Some lf \<and>
           sent = [fileToCommandArgument e (shellExecFile e), fileToCommandArgument e cmd]
                  @ args @ [fileToCommandArgument e lf] \<and>
           (case pythonInterpreter r of
              Some i \<Rightarrow> interpreter = pythonPath (Some i)
            | None \<Rightarrow> \<exists>pythonExec. ActiveInterpreter pythonExec \<in> set evs \<and>
                          interpreter = pythonPath pythonExec)"
proof -
  have inv: "call_inv r cmd args e evs c"
    using inv_run [OF assms(1)] assms(2) by simp
  show ?thesis
  proof (cases "callLockFile c")
    case None
    with inv assms(3) show ?thesis by (simp add: call_inv_def)
  next
    case (Some lf)
    with inv assms(3) show ?thesis by (simp add: call_inv_def)
  qed
qed

theorem rewritten_invocation_witness:
  "TerminalSendCommand ''python''
      [''/ext/pythonFiles/shell_exec.py'', CHR 0x22 # ''/opt/my tools/run'' @ [CHR 0x22],
       ''a b'', ''-v'', ''/tmp/lock.log'']
     \<in> set (effects (run sampleEnv [TemporaryFileCreated ''/tmp/lock.log'', ActiveInterpreter None]
                 (sendCommand ''/opt/my tools/run'' [''a b'', ''-v''] (Some liveToken) freshRunner)))
   \<and> (\<exists>lf. callLockFile (run sampleEnv [TemporaryFileCreated ''/tmp/lock.log'', ActiveInterpreter None]
                 (sendCommand ''/opt/my tools/run'' [''a b'', ''-v''] (Some liveToken) freshRunner))
               = Some lf \<and>
        [''/ext/pythonFiles/shell_exec.py'', CHR 0x22 # ''/opt/my tools/run'' @ [CHR 0x22],
         ''a b'', ''-v'', ''/tmp/lock.log'']
          = [fileToCommandArgument sampleEnv (shellExecFile sampleEnv),
             fileToCommandArgument sampleEnv ''/opt/my tools/run'']
            @ [''a b'', ''-v''] @ [fileToCommandArgument sampleEnv lf])"
proof -
  let ?evs = "[TemporaryFileCreated ''/tmp/lock.log'', ActiveInterpreter None]"
  let ?c = "run sampleEnv ?evs
              (sendCommand ''/opt/my tools/run'' [''a b'', ''-v''] (Some liveToken) freshRunner)"
  let ?sent = "[''/ext/pythonFiles/shell_exec.py'', CHR 0x22 # ''/opt/my tools/run'' @ [CHR 0x22],
                ''a b'', ''-v'', ''/tmp/lock.log'']"
  have h1: "effects freshRunner = []"
    by (simp add: freshRunner_def)
  have h3: "TerminalSendCommand ''python'' ?sent \<in> set (effects ?c)"
    by (simp add: sample_defs model_defs)
  from rewritten_invocation [OF h1 refl h3] h3
  show ?thesis by blast
qed

text \<open>
  C2 as stated fails: the arguments of the caller are not quoted. With a quoting function
  that puts \<^verbatim>\<open>a b\<close> between double quotes, the call \<^verbatim>\<open>sendCommand('echo', ['a b'], token)\<close>
  sends \<^verbatim>\<open>a b\<close> as it is, and not what quoting every argument would give.
\<close>

theorem args_sent_unquoted:
  "fileToCommandArgument sampleEnv ''a b'' = CHR 0x22 # ''a b'' @ [CHR 0x22]
   \<and> TerminalSendCommand ''python''
      [fileToCommandArgument sampleEnv (shellExecFile sampleEnv),
       fileToCommandArgument sampleEnv ''echo'',
       ''a b'',
       fileToCommandArgument sampleEnv ''/tmp/lock.log'']
     \<in> set (effects (run sampleEnv [TemporaryFileCreated ''/tmp/lock.log'', ActiveInterpreter None]
                 (sendCommand ''echo'' [''a b''] (Some liveToken) freshRunner)))
   \<and> TerminalSendCommand ''python''
      ([fileToCommandArgument sampleEnv (shellExecFile sampleEnv),
        fileToCommandArgument sampleEnv ''echo'']
       @ map (fileToCommandArgument sampleEnv) [''a b'']
       @ [fileToCommandArgument sampleEnv ''/tmp/lock.log''])
     \<notin> set (effects (run sampleEnv [TemporaryFileCreated ''/tmp/lock.log'', ActiveInterpreter None]
                 (sendCommand ''echo'' [''a b''] (Some liveToken) freshRunner)))"
  by (simp add: sample_defs model_defs)

text \<open>
  C1, as the code has it. Take a call with a token whose log starts empty, and let the
  watcher's future be rejected, either way it can happen: the call waits in the race and a
  poll reads contents with \<^verbatim>\<open>FAIL\<close> in them, or the future was rejected before the race is
  entered and the terminal now answers that the text is sent. The watcher's future then
  holds the error whose message ends with the command text, \<^verbatim>\<open>command\<close> and \<^verbatim>\<open>args\<close> joined
  by blanks. The call does not pass that rejection on: \<^verbatim>\<open>catch(noop)\<close> swallows it and the
  \<^verbatim>\<open>finally\<close> block runs, so that the watcher is disposed, the timer is cleared if it was
  still registered, \<^verbatim>\<open>dispose()\<close> of the lock file is called and leaves the file system; and
  when that \<^verbatim>\<open>dispose()\<close> does not throw, the call returns normally. Whether the token has
  fired plays no part in this.
\<close>

theorem sendCommand_swallows_rejection:
  assumes "effects r = []"
    and "c = run e evs (sendCommand cmd args (Some token) r)"
    and "callState c = Some w"
    and "(phase c = AwaitRace \<and> ev = ReadFileDone \<and> 0 < reading c \<and>
            (\<exists>source. fsys c (lockFile w) = Some source \<and> str_includes source ''FAIL''))
       \<or> (phase c = AwaitSend \<and> ev = TerminalSendCommandDone \<and>
            (\<exists>msg. completed_promise w = Rejected msg))"
    and "disposeFile e (lockFile w) (fsys c) = Inr fs"
  shows "phase (step e ev c) = Returned (Inr ())
       \<and> (\<exists>w'. callState (step e ev c) = Some w' \<and> \<not> disposable w' \<and>
               completed_promise w' =
                 Rejected (''Command failed with errors, check the terminal for details. Command: ''
                           @ join '' '' (cmd # args)))
       \<and> fsys (step e ev c) = fs
       \<and> effects (step e ev c) =
           effects c @ (if disposable w then [ClearInterval (lockFile w)] else [])
           @ [TemporaryFileDispose (lockFile w)]"
proof -
  have inv: "call_inv r cmd args e evs c"
    using inv_run [OF assms(1)] assms(2) by simp
  with assms(3) have lf: "callLockFile c = Some (lockFile w)" and cw: "command w = cmd # args"
    and msg: "\<And>m. completed_promise w = Rejected m \<Longrightarrow> m = failureMessage (cmd # args)"
    and race: "phase c = AwaitRace \<Longrightarrow> completed_promise w = Pending"
    by (auto simp: call_inv_def split: option.splits)
  from assms(4) consider
      (poll) source where "phase c = AwaitRace" "ev = ReadFileDone" "0 < reading c"
        "fsys c (lockFile w) = Some source" "str_includes source ''FAIL''"
    | (sent) m where "phase c = AwaitSend" "ev = TerminalSendCommandDone"
        "completed_promise w = Rejected m"
    by auto
  then show ?thesis
  proof cases
    case poll
    let ?w' = "stateUpdate (fsys c) w"
    have rej: "completed_promise ?w' = Rejected (failureMessage (cmd # args))"
      and dis: "\<not> disposable ?w'"
      using stateUpdate_on_FAIL [of "fsys c" w source] poll(4,5) race [OF poll(1)] cw
      by (simp_all add: reject_def)
    show ?thesis
      using poll(1-3) assms(3,5) lf rej dis
      by (simp add: onReadFileDone_def Let_def awaitRace_result finallyBlock_result
          dispose_def failureMessage_def)
  next
    case sent
    from msg [OF sent(3)] have m: "m = failureMessage (cmd # args)" .
    show ?thesis
      using sent assms(3,5) lf m
      by (simp add: onTerminalSendCommandDone_def awaitRace_result finallyBlock_result
          dispose_def failureMessage_def)
  qed
qed

theorem sendCommand_swallows_rejection_witness:
  "phase (run sampleEnv buildFailing (sendCommand ''build'' [''--all''] (Some liveToken) freshRunner))
     = AwaitRace
   \<and> fsys (run sampleEnv buildFailing (sendCommand ''build'' [''--all''] (Some liveToken) freshRunner))
       ''/tmp/lock.log'' = Some ''STARTFAIL''
   \<and> phase (step sampleEnv ReadFileDone
       (run sampleEnv buildFailing (sendCommand ''build'' [''--all''] (Some liveToken) freshRunner)))
     = Returned (Inr ())
   \<and> (\<exists>w'. callState (step sampleEnv ReadFileDone
       (run sampleEnv buildFailing (sendCommand ''build'' [''--all''] (Some liveToken) freshRunner)))
         = Some w' \<and> \<not> disposable w' \<and>
         completed_promise w' = Rejected
           ''Command failed with errors, check the terminal for details. Command: build --all'')
   \<and> fsys (step sampleEnv ReadFileDone
       (run sampleEnv buildFailing (sendCommand ''build'' [''--all''] (Some liveToken) freshRunner)))
       ''/tmp/lock.log'' = None
   \<and> phase (run sampleEnv failedEarly (sendCommand ''build'' [''--all''] (Some liveToken) freshRunner))
     = AwaitSend
   \<and> \<not> cancelled
       (run sampleEnv failedEarly (sendCommand ''build'' [''--all''] (Some liveToken) freshRunner))
   \<and> phase (step sampleEnv TerminalSendCommandDone
       (run sampleEnv failedEarly (sendCommand ''build'' [''--all''] (Some liveToken) freshRunner)))
     = Returned (Inr ())
   \<and> (\<exists>w'. callState (step sampleEnv TerminalSendCommandDone
       (run sampleEnv failedEarly (sendCommand ''build'' [''--all''] (Some liveToken) freshRunner)))
         = Some w' \<and> \<not> disposable w' \<and>
         completed_promise w' = Rejected
           ''Command failed with errors, check the terminal for details. Command: build --all'')
   \<and> effects (step sampleEnv TerminalSendCommandDone
       (run sampleEnv failedEarly (sendCommand ''build'' [''--all''] (Some liveToken) freshRunner)))
     = [CreateTemporaryFile ''.log'', SetInterval ''/tmp/lock.log'', GetActiveInterpreter,
        TerminalSendCommand ''python''
          [''/ext/pythonFiles/shell_exec.py'', ''build'', ''--all'', ''/tmp/lock.log''],
        ClearInterval ''/tmp/lock.log'', TemporaryFileDispose ''/tmp/lock.log'']"
proof -
  let ?call = "sendCommand ''build'' [''--all''] (Some liveToken) freshRunner"
  let ?c = "run sampleEnv buildFailing ?call"
  let ?w = "\<lparr>state = 1, completed_promise = Pending, disposable = True,
             lockFile = ''/tmp/lock.log'', command = [''build'', ''--all''],
             traced = [(1, ''build --all'')]\<rparr>"
  let ?d = "run sampleEnv failedEarly ?call"
  let ?v = "\<lparr>state = 6,
             completed_promise = Rejected
               ''Command failed with errors, check the terminal for details. Command: build --all'',
             disposable = False,
             lockFile = ''/tmp/lock.log'', command = [''build'', ''--all''],
             traced = [(6, ''build --all'')]\<rparr>"
  have h1: "effects freshRunner = []"
    by (simp add: freshRunner_def)
  have c3: "callState ?c = Some ?w" and cp: "phase ?c = AwaitRace" and cr: "0 < reading ?c"
    and cf: "fsys ?c ''/tmp/lock.log'' = Some ''STARTFAIL''"
    by (simp_all add: sample_defs model_defs)
  have c4: "(phase ?c = AwaitRace \<and> ReadFileDone = ReadFileDone \<and> 0 < reading ?c \<and>
            (\<exists>source. fsys ?c (lockFile ?w) = Some source \<and> str_includes source ''FAIL''))
       \<or> (phase ?c = AwaitSend \<and> ReadFileDone = TerminalSendCommandDone \<and>
            (\<exists>msg. completed_promise ?w = Rejected msg))"
    using cp cr cf by simp
  have c5: "disposeFile sampleEnv (lockFile ?w) (fsys ?c)
              = Inr ((fsys ?c)(''/tmp/lock.log'' := None))"
    by (simp add: sampleEnv_def removeFile_def)
  have d3: "callState ?d = Some ?v" and dp: "phase ?d = AwaitSend" and dc: "\<not> cancelled ?d"
    and de: "effects ?d
      = [CreateTemporaryFile ''.log'', SetInterval ''/tmp/lock.log'', GetActiveInterpreter,
         TerminalSendCommand ''python''
           [''/ext/pythonFiles/shell_exec.py'', ''build'', ''--all'', ''/tmp/lock.log''],
         ClearInterval ''/tmp/lock.log'']"
    by (simp_all add: sample_defs model_defs)
  have d4: "(phase ?d = AwaitRace \<and> TerminalSendCommandDone = ReadFileDone \<and> 0 < reading ?d \<and>
            (\<exists>source. fsys ?d (lockFile ?v) = Some source \<and> str_includes source ''FAIL''))
       \<or> (phase ?d = AwaitSend \<and> TerminalSendCommandDone = TerminalSendCommandDone \<and>
            (\<exists>msg. completed_promise ?v = Rejected msg))"
    using dp by simp
  have d5: "disposeFile sampleEnv (lockFile ?v) (fsys ?d)
              = Inr ((fsys ?d)(''/tmp/lock.log'' := None))"
    by (simp add: sampleEnv_def removeFile_def)
  from sendCommand_swallows_rejection [OF h1 refl c3 c4 c5]
    sendCommand_swallows_rejection [OF h1 refl d3 d4 d5] cp cf dp dc de
  show ?thesis by simp
qed

text \<open>
  C1 as stated fails. In the call \<^verbatim>\<open>sendCommand('build', [], token)\<close> the helper writes
  \<^verbatim>\<open>START\<close>, then \<^verbatim>\<open>FAIL\<close>; the token never fires. The watcher's future is rejected with the
  message that names \<^verbatim>\<open>build\<close>, and the call returns normally.
\<close>

theorem sendCommand_resolves_on_FAIL:
  "phase (run sampleEnv buildFails (sendCommand ''build'' [] (Some liveToken) freshRunner))
     = Returned (Inr ())
   \<and> \<not> cancelled (run sampleEnv buildFails (sendCommand ''build'' [] (Some liveToken) freshRunner))
   \<and> map_option completed_promise
        (callState (run sampleEnv buildFails (sendCommand ''build'' [] (Some liveToken) freshRunner)))
     = Some (Rejected ''Command failed with errors, check the terminal for details. Command: build'')"
  by (simp add: sample_defs model_defs)

text \<open>
  C8. Take a call with a token whose log starts empty, at any moment at which its lock
  file exists.

  Each way out of the call is a step that returns. The resolver fails, or the terminal
  fails: the call returns that failure. The terminal answers while the watcher's future is
  settled or the token has fired; the token fires during the race; a poll reads \<^verbatim>\<open>END\<close> or
  \<^verbatim>\<open>FAIL\<close> during the race: the call returns normally. In each case an error thrown by
  \<^verbatim>\<open>dispose()\<close> of the lock file takes the place of that outcome.

  And every step that returns, on whatever path, has run the \<^verbatim>\<open>finally\<close> block: the file
  system is what \<^verbatim>\<open>dispose()\<close> of the lock file leaves (unchanged if it throws), the log has
  grown by the \<^verbatim>\<open>clearInterval\<close>, if the timer was still registered, and by the call of that
  \<^verbatim>\<open>dispose()\<close>. From then on, whatever happens, the call stays returned, the watcher is
  disposed, its timer not registered, and \<^verbatim>\<open>dispose()\<close> of the lock file has been called by
  the call exactly once.
\<close>

theorem sendCommand_cleans_up:
  assumes "effects r = []"
    and "c = run e evs (sendCommand cmd args (Some token) r)"
    and "callLockFile c = Some lf"
  shows "(((phase c = AwaitInterpreter \<and> ev = GetActiveInterpreterFailed err \<and> outcome = Inl err)
          \<or> (phase c = AwaitSend \<and> ev = TerminalSendCommandFailed err \<and> outcome = Inl err)
          \<or> (phase c = AwaitSend \<and> ev = TerminalSendCommandDone \<and> outcome = Inr () \<and>
               (cancelled c \<or> (\<exists>w. callState c = Some w \<and> completed_promise w \<noteq> Pending)))
          \<or> (phase c = AwaitRace \<and> ev = CancellationRequested \<and> outcome = Inr ())
          \<or> (phase c = AwaitRace \<and> ev = ReadFileDone \<and> outcome = Inr () \<and> 0 < reading c \<and>
               (\<exists>source. fsys c lf = Some source \<and>
                  (str_includes source ''END'' \<or> str_includes source ''FAIL''))))
         \<longrightarrow> phase (step e ev c)
               = Returned (case disposeFile e lf (fsys c) of
                             Inl thrown \<Rightarrow> Inl thrown | Inr fs \<Rightarrow> outcome))
       \<and> ((\<forall>x. phase c \<noteq> Returned x) \<and> (\<exists>out. phase (step e ev c) = Returned out)
         \<longrightarrow> fsys (step e ev c)
               = (case disposeFile e lf (fsys c) of Inl thrown \<Rightarrow> fsys c | Inr fs \<Rightarrow> fs)
           \<and> (\<exists>w. callState c = Some w \<and>
                  effects (step e ev c)
                    = effects c @ (if disposable w then [ClearInterval lf] else [])
                      @ [TemporaryFileDispose lf])
           \<and> phase (run e later (step e ev c)) = phase (step e ev c)
           \<and> (\<exists>w'. callState (run e later (step e ev c)) = Some w' \<and> lockFile w' = lf
                   \<and> \<not> disposable w')
           \<and> count_list (effects (run e later (step e ev c))) (TemporaryFileDispose lf) = 1)"
proof -
  have inv: "call_inv r cmd args e evs c"
    using inv_run [OF assms(1)] assms(2) by simp
  from inv assms(3) obtain w where w: "callState c = Some w"
    by (auto simp: call_inv_def)
  have exits: "phase (step e ev c)
               = Returned (case disposeFile e lf (fsys c) of
                             Inl thrown \<Rightarrow> Inl thrown | Inr fs \<Rightarrow> outcome)"
    if "(phase c = AwaitInterpreter \<and> ev = GetActiveInterpreterFailed err \<and> outcome = Inl err)
          \<or> (phase c = AwaitSend \<and> ev = TerminalSendCommandFailed err \<and> outcome = Inl err)
          \<or> (phase c = AwaitSend \<and> ev = TerminalSendCommandDone \<and> outcome = Inr () \<and>
               (cancelled c \<or> (\<exists>w. callState c = Some w \<and> completed_promise w \<noteq> Pending)))
          \<or> (phase c = AwaitRace \<and> ev = CancellationRequested \<and> outcome = Inr ())
          \<or> (phase c = AwaitRace \<and> ev = ReadFileDone \<and> outcome = Inr () \<and> 0 < reading c \<and>
               (\<exists>source. fsys c lf = Some source \<and>
                  (str_includes source ''END'' \<or> str_includes source ''FAIL'')))"
    using exit_step [OF inv assms(3) that] .
  have cleaned: "fsys (step e ev c)
               = (case disposeFile e lf (fsys c) of Inl thrown \<Rightarrow> fsys c | Inr fs \<Rightarrow> fs)
           \<and> (\<exists>w. callState c = Some w \<and>
                  effects (step e ev c)
                    = effects c @ (if disposable w then [ClearInterval lf] else [])
                      @ [TemporaryFileDispose lf])
           \<and> phase (run e later (step e ev c)) = phase (step e ev c)
           \<and> (\<exists>w'. callState (run e later (step e ev c)) = Some w' \<and> lockFile w' = lf
                   \<and> \<not> disposable w')
           \<and> count_list (effects (run e later (step e ev c))) (TemporaryFileDispose lf) = 1"
    if nret: "\<forall>x. phase c \<noteq> Returned x" and ret: "\<exists>out. phase (step e ev c) = Returned out"
  proof -
    from ret obtain out where out: "phase (step e ev c) = Returned out" by blast
    have nr: "\<not> returned c"
      using nret by (auto simp: returned_def split: phase.splits)
    let ?c' = "run e later (step e ev c)"
    have "phase c \<noteq> AwaitLockFile"
      using inv assms(3) by (auto simp: call_inv_def)
    with assms(3) have lf': "callLockFile (step e ev c) = Some lf"
      by (rule lockFile_step)
    have "call_inv r cmd args e ((evs @ [ev]) @ later) ?c'"
      unfolding run_def by (rule inv_fold [OF inv_step [OF inv]])
    moreover have stay: "phase ?c' = Returned out" "callLockFile ?c' = Some lf"
      using returned_fold [OF out, of e later] lf' by (simp_all add: run_def)
    ultimately have "(\<exists>w'. callState ?c' = Some w' \<and> lockFile w' = lf \<and> \<not> disposable w')
         \<and> count_list (effects ?c') (TemporaryFileDispose lf) = 1"
      by (auto simp: call_inv_def returned_def)
    with returning_step [OF inv nr assms(3) w out] w stay(1) out show ?thesis by simp
  qed
  from exits cleaned show ?thesis by blast
qed

theorem sendCommand_cleans_up_witness:
  "phase (step sampleEnv (GetActiveInterpreterFailed ''no interpreter'')
       (run sampleEnv awaitingInterpreter (sendCommand ''build'' [] (Some liveToken) freshRunner)))
     = Returned (Inl ''no interpreter'')
   \<and> fsys (step sampleEnv (GetActiveInterpreterFailed ''no interpreter'')
       (run sampleEnv awaitingInterpreter (sendCommand ''build'' [] (Some liveToken) freshRunner)))
       ''/tmp/lock.log'' = None
   \<and> effects (step sampleEnv (GetActiveInterpreterFailed ''no interpreter'')
       (run sampleEnv awaitingInterpreter (sendCommand ''build'' [] (Some liveToken) freshRunner)))
     = [CreateTemporaryFile ''.log'', SetInterval ''/tmp/lock.log'', GetActiveInterpreter,
        ClearInterval ''/tmp/lock.log'', TemporaryFileDispose ''/tmp/lock.log'']
   \<and> phase (step sampleEnv (TerminalSendCommandFailed ''terminal closed'')
       (run sampleEnv awaitingTerminal (sendCommand ''build'' [] (Some liveToken) freshRunner)))
     = Returned (Inl ''terminal closed'')
   \<and> fsys (step sampleEnv (TerminalSendCommandFailed ''terminal closed'')
       (run sampleEnv awaitingTerminal (sendCommand ''build'' [] (Some liveToken) freshRunner)))
       ''/tmp/lock.log'' = None
   \<and> phase (step sampleEnv TerminalSendCommandDone
       (run sampleEnv failedEarly (sendCommand ''build'' [] (Some liveToken) freshRunner)))
     = Returned (Inr ())
   \<and> fsys (step sampleEnv TerminalSendCommandDone
       (run sampleEnv failedEarly (sendCommand ''build'' [] (Some liveToken) freshRunner)))
       ''/tmp/lock.log'' = None
   \<and> phase (step sampleEnv CancellationRequested
       (run sampleEnv racing (sendCommand ''build'' [] (Some liveToken) freshRunner)))
     = Returned (Inr ())
   \<and> fsys (step sampleEnv CancellationRequested
       (run sampleEnv racing (sendCommand ''build'' [] (Some liveToken) freshRunner)))
       ''/tmp/lock.log'' = None
   \<and> (\<exists>w'. callState (run sampleEnv [IntervalElapsed, ReadFileDone]
         (step sampleEnv CancellationRequested
           (run sampleEnv racing (sendCommand ''build'' [] (Some liveToken) freshRunner))))
         = Some w' \<and> lockFile w' = ''/tmp/lock.log'' \<and> \<not> disposable w')
   \<and> count_list (effects (run sampleEnv [IntervalElapsed, ReadFileDone]
         (step sampleEnv CancellationRequested
           (run sampleEnv racing (sendCommand ''build'' [] (Some liveToken) freshRunner)))))
        (TemporaryFileDispose ''/tmp/lock.log'') = 1
   \<and> phase (step sampleEnv ReadFileDone
       (run sampleEnv buildEnding (sendCommand ''build'' [] (Some liveToken) freshRunner)))
     = Returned (Inr ())
   \<and> fsys (step sampleEnv ReadFileDone
       (run sampleEnv buildEnding (sendCommand ''build'' [] (Some liveToken) freshRunner)))
       ''/tmp/lock.log'' = None
   \<and> phase (step sampleEnv ReadFileDone
       (run sampleEnv buildFailing (sendCommand ''build'' [] (Some liveToken) freshRunner)))
     = Returned (Inr ())
   \<and> fsys (step sampleEnv ReadFileDone
       (run sampleEnv buildFailing (sendCommand ''build'' [] (Some liveToken) freshRunner)))
       ''/tmp/lock.log'' = None"
proof -
  let ?call = "sendCommand ''build'' [] (Some liveToken) freshRunner"
  let ?lf = "''/tmp/lock.log''"
  have h: "effects freshRunner = []"
    by (simp add: freshRunner_def)
  have rm: "\<And>fs. disposeFile sampleEnv ?lf fs = Inr (fs(?lf := None))"
    by (simp add: sampleEnv_def removeFile_def)
  let ?a = "run sampleEnv awaitingInterpreter ?call"
  have a: "callLockFile ?a = Some ?lf" "phase ?a = AwaitInterpreter"
    "effects ?a = [CreateTemporaryFile ''.log'', SetInterval ?lf, GetActiveInterpreter]"
    "map_option disposable (callState ?a) = Some True"
    by (simp_all add: sample_defs model_defs)
  note ta = sendCommand_cleans_up [OF h refl a(1),
      of "GetActiveInterpreterFailed ''no interpreter''" "''no interpreter''"
         "Inl ''no interpreter''" "[]"]
  have ra: "phase (step sampleEnv (GetActiveInterpreterFailed ''no interpreter'') ?a)
              = Returned (Inl ''no interpreter'')"
    using ta a(2) by (simp add: rm)
  have fa: "fsys (step sampleEnv (GetActiveInterpreterFailed ''no interpreter'') ?a) ?lf = None"
    and ea: "effects (step sampleEnv (GetActiveInterpreterFailed ''no interpreter'') ?a)
      = [CreateTemporaryFile ''.log'', SetInterval ?lf, GetActiveInterpreter,
         ClearInterval ?lf, TemporaryFileDispose ?lf]"
    using ta a ra by (auto simp: rm)
  let ?b = "run sampleEnv awaitingTerminal ?call"
  have b: "callLockFile ?b = Some ?lf" "phase ?b = AwaitSend"
    by (simp_all add: sample_defs model_defs)
  note tb = sendCommand_cleans_up [OF h refl b(1),
      of "TerminalSendCommandFailed ''terminal closed''" "''terminal closed''"
         "Inl ''terminal closed''" "[]"]
  have rb: "phase (step sampleEnv (TerminalSendCommandFailed ''terminal closed'') ?b)
              = Returned (Inl ''terminal closed'')"
    using tb b(2) by (simp add: rm)
  have fb: "fsys (step sampleEnv (TerminalSendCommandFailed ''terminal closed'') ?b) ?lf = None"
    using tb b rb by (auto simp: rm)
  let ?s = "run sampleEnv failedEarly ?call"
  have s: "callLockFile ?s = Some ?lf" "phase ?s = AwaitSend"
    "\<exists>w. callState ?s = Some w \<and> completed_promise w \<noteq> Pending"
    by (simp_all add: sample_defs model_defs)
  note ts = sendCommand_cleans_up [OF h refl s(1),
      of TerminalSendCommandDone "''''" "Inr ()" "[]"]
  have rs: "phase (step sampleEnv TerminalSendCommandDone ?s) = Returned (Inr ())"
    using ts s(2,3) by (simp add: rm)
  have fs1: "fsys (step sampleEnv TerminalSendCommandDone ?s) ?lf = None"
    using ts s rs by (auto simp: rm)
  let ?r = "run sampleEnv racing ?call"
  have r: "callLockFile ?r = Some ?lf" "phase ?r = AwaitRace"
    by (simp_all add: sample_defs model_defs)
  note tr = sendCommand_cleans_up [OF h refl r(1),
      of CancellationRequested "''''" "Inr ()" "[IntervalElapsed, ReadFileDone]"]
  have rr: "phase (step sampleEnv CancellationRequested ?r) = Returned (Inr ())"
    using tr r(2) by (simp add: rm)
  have fr: "fsys (step sampleEnv CancellationRequested ?r) ?lf = None"
    and lr: "\<exists>w'. callState (run sampleEnv [IntervalElapsed, ReadFileDone]
               (step sampleEnv CancellationRequested ?r)) = Some w'
             \<and> lockFile w' = ?lf \<and> \<not> disposable w'"
    and nr: "count_list (effects (run sampleEnv [IntervalElapsed, ReadFileDone]
               (step sampleEnv CancellationRequested ?r))) (TemporaryFileDispose ?lf) = 1"
    using tr r rr by (auto simp: rm)
  let ?n = "run sampleEnv buildEnding ?call"
  have n: "callLockFile ?n = Some ?lf" "phase ?n = AwaitRace" "0 < reading ?n"
    "fsys ?n ?lf = Some ''STARTEND''"
    by (simp_all add: sample_defs model_defs)
  note tn = sendCommand_cleans_up [OF h refl n(1), of ReadFileDone "''''" "Inr ()" "[]"]
  have rn: "phase (step sampleEnv ReadFileDone ?n) = Returned (Inr ())"
    using tn n(2,3,4) by (simp add: rm)
  have fn1: "fsys (step sampleEnv ReadFileDone ?n) ?lf = None"
    using tn n rn by (auto simp: rm)
  let ?x = "run sampleEnv buildFailing ?call"
  have x: "callLockFile ?x = Some ?lf" "phase ?x = AwaitRace" "0 < reading ?x"
    "fsys ?x ?lf = Some ''STARTFAIL''"
    by (simp_all add: sample_defs model_defs)
  note tx = sendCommand_cleans_up [OF h refl x(1), of ReadFileDone "''''" "Inr ()" "[]"]
  have rx: "phase (step sampleEnv ReadFileDone ?x) = Returned (Inr ())"
    using tx x(2,3,4) by (simp add: rm)
  have fx: "fsys (step sampleEnv ReadFileDone ?x) ?lf = None"
    using tx x rx by (auto simp: rm)
  from ra fa ea rb fb rs fs1 rr fr lr nr rn fn1 rx fx show ?thesis
    by (simp only: simp_thms)
qed

subsection \<open>The service's dispose after a call\<close>

text \<open>
  C10. In a call with a token whose log starts empty, once the lock file exists it is
  the last entry of \<open>disposables\<close> and stays there, also after the call has returned. The
  service's \<^verbatim>\<open>dispose()\<close> then disposes the terminal and takes the entries in turn: on each it
  calls \<^verbatim>\<open>dispose()\<close>, which acts on the file system the entries before have left; when
  that call throws, the file system stays as it is and the loop goes on with the next
  entry. The list ends empty. So a lock file of a returned call, disposed once by the call,
  is disposed a second time, and the second \<^verbatim>\<open>dispose()\<close> acts on the file system again.
\<close>

theorem lock_file_disposed_twice:
  assumes "effects r = []"
    and "c = run e evs (sendCommand cmd args (Some token) r)"
    and "callLockFile c = Some lf"
  shows "disposables c = disposables r @ [lf]
       \<and> disposables (disposeService e c) = []
       \<and> effects (disposeService e c)
           = effects c @ TerminalDispose # map TemporaryFileDispose (disposables r @ [lf])
       \<and> fsys (disposeService e c)
           = foldl (\<lambda>fs d. case disposeFile e d fs of Inl thrown \<Rightarrow> fs | Inr fs' \<Rightarrow> fs')
               (fsys c) (disposables r @ [lf])
       \<and> (phase c = Returned outcome \<longrightarrow>
            count_list (effects c) (TemporaryFileDispose lf) = 1 \<and>
            count_list (effects (disposeService e c)) (TemporaryFileDispose lf)
              = 2 + count_list (disposables r) lf)"
proof -
  have inv: "call_inv r cmd args e evs c"
    using inv_run [OF assms(1)] assms(2) by simp
  have d: "disposables c = disposables r @ [lf]"
    using inv assms(3) by (simp add: call_inv_def)
  have once: "phase c = Returned outcome \<Longrightarrow> count_list (effects c) (TemporaryFileDispose lf) = 1"
    using inv assms(3) by (simp add: call_inv_def returned_def)
  have e: "effects (disposeService e c)
           = effects c @ TerminalDispose # map TemporaryFileDispose (disposables c)"
    and n: "disposables (disposeService e c) = []"
    and f: "fsys (disposeService e c)
           = foldl (\<lambda>fs d. case disposeFile e d fs of Inl thrown \<Rightarrow> fs | Inr fs' \<Rightarrow> fs')
               (fsys c) (disposables c)"
    using drain_all [of e "c\<lparr>effects := effects c @ [TerminalDispose]\<rparr>"]
    by (simp_all add: disposeService_def)
  show ?thesis
    using d once e n f by (simp add: count_dispose)
qed

theorem lock_file_disposed_twice_witness:
  "phase (run strictEnv cancelledThenWritten
            (sendCommand ''sleep'' [''10''] (Some liveToken) staleRunner)) = Returned (Inr ())
   \<and> disposables (run strictEnv cancelledThenWritten
            (sendCommand ''sleep'' [''10''] (Some liveToken) staleRunner))
     = [''/tmp/old.log'', ''/tmp/lock.log'']
   \<and> disposeFile strictEnv ''/tmp/old.log''
        (fsys (run strictEnv cancelledThenWritten
            (sendCommand ''sleep'' [''10''] (Some liveToken) staleRunner)))
     = Inl ''ENOENT''
   \<and> fsys (run strictEnv cancelledThenWritten
            (sendCommand ''sleep'' [''10''] (Some liveToken) staleRunner)) ''/tmp/lock.log''
     = Some ''STARTEND''
   \<and> fsys (disposeService strictEnv (run strictEnv cancelledThenWritten
            (sendCommand ''sleep'' [''10''] (Some liveToken) staleRunner))) ''/tmp/lock.log''
     = None
   \<and> disposables (disposeService strictEnv (run strictEnv cancelledThenWritten
            (sendCommand ''sleep'' [''10''] (Some liveToken) staleRunner))) = []
   \<and> effects (disposeService strictEnv (run strictEnv cancelledThenWritten
            (sendCommand ''sleep'' [''10''] (Some liveToken) staleRunner)))
     = [CreateTemporaryFile ''.log'', SetInterval ''/tmp/lock.log'', GetActiveInterpreter,
        TerminalSendCommand ''python''
          [''/ext/pythonFiles/shell_exec.py'', ''sleep'', ''10'', ''/tmp/lock.log''],
        ClearInterval ''/tmp/lock.log'', TemporaryFileDispose ''/tmp/lock.log'',
        TerminalDispose, TemporaryFileDispose ''/tmp/old.log'',
        TemporaryFileDispose ''/tmp/lock.log'']
   \<and> count_list (effects (disposeService strictEnv (run strictEnv cancelledThenWritten
            (sendCommand ''sleep'' [''10''] (Some liveToken) staleRunner))))
        (TemporaryFileDispose ''/tmp/lock.log'') = 2"
proof -
  let ?c = "run strictEnv cancelledThenWritten
              (sendCommand ''sleep'' [''10''] (Some liveToken) staleRunner)"
  have h1: "effects staleRunner = []"
    by (simp add: staleRunner_def)
  have h3: "callLockFile ?c = Some ''/tmp/lock.log''"
    and ph: "phase ?c = Returned (Inr ())"
    and old: "disposeFile strictEnv ''/tmp/old.log'' (fsys ?c) = Inl ''ENOENT''"
    and again: "fsys ?c ''/tmp/lock.log'' = Some ''STARTEND''"
    and log: "effects ?c
      = [CreateTemporaryFile ''.log'', SetInterval ''/tmp/lock.log'', GetActiveInterpreter,
         TerminalSendCommand ''python''
           [''/ext/pythonFiles/shell_exec.py'', ''sleep'', ''10'', ''/tmp/lock.log''],
         ClearInterval ''/tmp/lock.log'', TemporaryFileDispose ''/tmp/lock.log'']"
    by (simp_all add: sample_defs model_defs)
  have d0: "disposables staleRunner = [''/tmp/old.log'']"
    by (simp add: staleRunner_def)
  have rm: "disposeFile strictEnv = removeExistingFile"
    by (simp add: strictEnv_def)
  from lock_file_disposed_twice [OF h1 refl h3, of "Inr ()"] ph old again log d0
  show ?thesis by (simp add: rm removeExistingFile_def)
qed

end
